theory Spec2Isabelle
  imports Main "HOL-Library.Word"
begin

unbundle bit_operations_syntax

section \<open>Go values used by flash/utils/ByteArray.go\<close>

text \<open>
  The embedding fixes a 64-bit Go target: \<open>uint\<close> and \<open>int\<close> are 64 bits wide
  (the source compares a \<open>uint\<close> with \<open>math.MaxUint32\<close>, which is only meaningful there).
  Unsigned arithmetic wraps around, as \<open>+\<close> and \<open>-\<close> on words do. Signed Go integers
  (\<open>int8\<close>, \<open>int16\<close>, \<open>int32\<close>) are kept as their two's-complement bit patterns, read
  with \<open>sint\<close>; the conversions \<open>byte(v)\<close>, \<open>uint16(v)\<close>, \<open>uint32(v)\<close> between a signed
  and an unsigned type of the same width do not change the pattern. A \<open>float32\<close> or
  \<open>float64\<close> is kept as its IEEE-754 bit pattern, which is what \<open>math.Float32bits\<close>,
  \<open>math.Float64bits\<close> and their inverses convert to and from; a Go \<open>string\<close> is its
  sequence of bytes.
\<close>

type_synonym byte = "8 word"
type_synonym uint16 = "16 word"
type_synonym uint32 = "32 word"
type_synonym uint64 = "64 word"
type_synonym uint = "64 word"

text \<open>flash/errors/EOFError.go: the two error values.\<close>

datatype error = ErrorEOF | ErrorRange

text \<open>
  A Go call either returns or panics at run time (index or slice bounds out of range,
  \<open>makeslice: len out of range\<close>). A function that may loop forever returns an
  \<open>option\<close> of this, \<open>None\<close> meaning that the call does not return.
\<close>

datatype 'a res = Return 'a | Panic

definition bind_res :: "'a res option \<Rightarrow> ('a \<Rightarrow> 'b res option) \<Rightarrow> 'b res option" where
  "bind_res m f = (case m of None \<Rightarrow> None | Some Panic \<Rightarrow> Some Panic | Some (Return x) \<Rightarrow> f x)"

definition bind_panic :: "'a res \<Rightarrow> ('a \<Rightarrow> 'b res) \<Rightarrow> 'b res" where
  "bind_panic m f = (case m of Panic \<Rightarrow> Panic | Return x \<Rightarrow> f x)"

text \<open>encoding/binary: the two byte orders.\<close>

datatype ByteOrder = BigEndian | LittleEndian

text \<open>
  The largest value of Go's \<open>int\<close>: the length of a slice is an \<open>int\<close>, so no slice
  holds more elements.
\<close>

definition maxInt :: uint where
  "maxInt = 9223372036854775807"

text \<open>
  \<open>make([]byte, n)\<close>. The Go runtime (\<open>runtime.makeslice\<close>) panics with
  \<open>makeslice: len out of range\<close> when \<open>n\<close> is above \<open>maxAlloc\<close>, which is \<open>2 ^ 48\<close> on
  the 64-bit target fixed here (linux/amd64), and returns \<open>n\<close> zero bytes otherwise.
  (Running out of memory below that bound ends the program with a fatal error, which is
  not a panic and not part of the model.)
\<close>

definition maxAlloc :: uint where
  "maxAlloc = 281474976710656"

definition make_bytes :: "uint \<Rightarrow> byte list res" where
  "make_bytes n = (if n \<le> maxAlloc then Return (replicate (unat n) 0) else Panic)"

definition MaxUint32 :: uint where
  "MaxUint32 = 4294967295"

text \<open>
  Big-endian encoding of the low \<open>n\<close> bytes of a word and decoding of a byte list,
  most significant byte first; the little-endian order is the reverse list.
\<close>

fun bytes_be :: "nat \<Rightarrow> 'a::len word \<Rightarrow> byte list" where
  "bytes_be 0 v = []"
| "bytes_be (Suc n) v = ucast (drop_bit (8 * n) v) # bytes_be n v"

definition word_be :: "byte list \<Rightarrow> 'a::len word" where
  "word_be bs = foldl (\<lambda>acc b. push_bit 8 acc OR ucast b) 0 bs"

definition encode_order :: "ByteOrder \<Rightarrow> nat \<Rightarrow> 'a::len word \<Rightarrow> byte list" where
  "encode_order e n v = (case e of BigEndian \<Rightarrow> bytes_be n v | LittleEndian \<Rightarrow> rev (bytes_be n v))"

definition decode_order :: "ByteOrder \<Rightarrow> byte list \<Rightarrow> 'a::len word" where
  "decode_order e bs = (case e of BigEndian \<Rightarrow> word_be bs | LittleEndian \<Rightarrow> word_be (rev bs))"

section \<open>The ByteArray struct\<close>

text \<open>
  \<open>raw\<close> holds the elements of the slice \<open>b.raw\<close>, so \<open>len(b.raw)\<close> is its length;
  \<open>spare\<close> holds the elements of the backing array between the length and the capacity
  of that slice (empty for every slice that \<open>make([]byte, n)\<close> returns, possibly not
  for a slice handed to \<open>NewByteArray\<close>). The field \<open>length\<close> of the source is
  \<open>lengthB\<close> here. \<open>endian\<close> is an interface value of type \<open>binary.ByteOrder\<close>:
  \<open>None\<close> is the nil interface, the value of the field in \<open>&ByteArray{}\<close>.
\<close>

record ByteArray =
  raw :: "byte list"
  spare :: "byte list"
  endian :: "ByteOrder option"
  position :: uint
  lengthB :: uint

definition pointerPosition :: uint where "pointerPosition = 1"
definition pointerLength :: uint where "pointerLength = 2"
definition pointerCapacity :: uint where "pointerCapacity = 4"

definition byteWide1 :: uint where "byteWide1 = 1"
definition byteWide2 :: uint where "byteWide2 = 2"
definition byteWide4 :: uint where "byteWide4 = 4"
definition byteWide8 :: uint where "byteWide8 = 8"

text \<open>
  Modelled from the spec: the constants \<open>EndianBig\<close> and \<open>EndianLittle\<close> are declared
  in a file of the package that is not among the sources; the spec (section 6) names
  them as the two symbolic modes, big and little. Only their being different is used.
\<close>

definition EndianBig :: uint where "EndianBig = 0"
definition EndianLittle :: uint where "EndianLittle = 1"

subsection \<open>Slices of the backing array\<close>

text \<open>The index expression \<open>b.raw[i]\<close>: panics unless \<open>i < len(b.raw)\<close>.\<close>

definition index_get :: "ByteArray \<Rightarrow> uint \<Rightarrow> byte res" where
  "index_get b i = (if unat i < length (raw b) then Return (raw b ! unat i) else Panic)"

text \<open>The assignment \<open>b.raw[i] = v\<close>.\<close>

definition index_set :: "ByteArray \<Rightarrow> uint \<Rightarrow> byte \<Rightarrow> ByteArray res" where
  "index_set b i v =
     (if unat i < length (raw b) then Return (b\<lparr>raw := (raw b)[unat i := v]\<rparr>) else Panic)"

text \<open>
  The slice expression \<open>b.raw[lo:hi]\<close> as a value: it panics unless
  \<open>lo \<le> hi \<le> cap(b.raw)\<close>, and may reach beyond \<open>len(b.raw)\<close> into the capacity.
\<close>

definition slice_get :: "ByteArray \<Rightarrow> uint \<Rightarrow> uint \<Rightarrow> byte list res" where
  "slice_get b lo hi =
     (if unat lo \<le> unat hi \<and> unat hi \<le> length (raw b) + length (spare b)
      then Return (take (unat hi - unat lo) (drop (unat lo) (raw b @ spare b)))
      else Panic)"

text \<open>
  The effect on \<open>b\<close> of writing the bytes \<open>bs\<close> into its backing array from index
  \<open>lo\<close> on, for a range that lies within the capacity.
\<close>

definition store :: "ByteArray \<Rightarrow> nat \<Rightarrow> byte list \<Rightarrow> ByteArray" where
  "store b lo bs =
     (let whole = raw b @ spare b;
          whole' = take lo whole @ bs @ drop (lo + length bs) whole
      in b\<lparr>raw := take (length (raw b)) whole', spare := drop (length (raw b)) whole'\<rparr>)"

text \<open>
  \<open>copy(b.raw[lo:hi], src)\<close>: the slice expression panics as above; \<open>copy\<close> then
  writes as many bytes as the shorter of the two slices holds.
\<close>

definition copy_range :: "ByteArray \<Rightarrow> uint \<Rightarrow> uint \<Rightarrow> byte list \<Rightarrow> ByteArray res" where
  "copy_range b lo hi src =
     (if unat lo \<le> unat hi \<and> unat hi \<le> length (raw b) + length (spare b)
      then Return (store b (unat lo) (take (unat hi - unat lo) src))
      else Panic)"

text \<open>\<open>copy(b.raw[lo:], src)\<close>.\<close>

definition copy_from :: "ByteArray \<Rightarrow> uint \<Rightarrow> byte list \<Rightarrow> ByteArray res" where
  "copy_from b lo src =
     (if unat lo \<le> length (raw b)
      then Return (store b (unat lo) (take (length (raw b) - unat lo) src))
      else Panic)"

text \<open>
  \<open>b.endian.PutUintN(b.raw[lo:], v)\<close> for \<open>N = 8 * n\<close>: the method call panics on a
  nil \<open>b.endian\<close>, the slice expression panics unless \<open>lo \<le> len(b.raw)\<close>, and
  encoding/binary panics before writing anything unless the slice holds \<open>n\<close> bytes.
\<close>

definition put_uint :: "ByteArray \<Rightarrow> uint \<Rightarrow> nat \<Rightarrow> 'a::len word \<Rightarrow> ByteArray res" where
  "put_uint b lo n v =
     (case endian b of
        None \<Rightarrow> Panic
      | Some e \<Rightarrow>
          if unat lo \<le> length (raw b) \<and> n \<le> length (raw b) - unat lo
          then Return (store b (unat lo) (encode_order e n v))
          else Panic)"

text \<open>\<open>b.endian.UintN(b.raw[lo:])\<close> for \<open>N = 8 * n\<close>, with the same three panics.\<close>

definition get_uint :: "ByteArray \<Rightarrow> uint \<Rightarrow> nat \<Rightarrow> 'a::len word res" where
  "get_uint b lo n =
     (case endian b of
        None \<Rightarrow> Panic
      | Some e \<Rightarrow>
          if unat lo \<le> length (raw b) \<and> n \<le> length (raw b) - unat lo
          then Return (decode_order e (take n (drop (unat lo) (raw b))))
          else Panic)"

subsection \<open>Accessors\<close>

definition GetEndian :: "ByteArray \<Rightarrow> uint" where
  "GetEndian b = (if Some LittleEndian = endian b then EndianLittle else EndianBig)"

definition SetEndian :: "ByteArray \<Rightarrow> uint \<Rightarrow> ByteArray" where
  "SetEndian b e =
     (if EndianLittle = e then b\<lparr>endian := Some LittleEndian\<rparr>
      else b\<lparr>endian := Some BigEndian\<rparr>)"

definition GetLength :: "ByteArray \<Rightarrow> uint" where
  "GetLength b = lengthB b"

definition GetPosition :: "ByteArray \<Rightarrow> uint" where
  "GetPosition b = position b"

definition SetPosition :: "ByteArray \<Rightarrow> uint \<Rightarrow> ByteArray" where
  "SetPosition b newPos = (if position b = newPos then b else b\<lparr>position := newPos\<rparr>)"

definition BytesAvailable :: "ByteArray \<Rightarrow> uint" where
  "BytesAvailable b = (if lengthB b > position b then lengthB b - position b else 0)"

subsection \<open>The private helpers\<close>

definition checkLength :: "ByteArray \<Rightarrow> uint \<Rightarrow> error option" where
  "checkLength b needBytes = (if BytesAvailable b < needBytes then Some ErrorEOF else None)"

text \<open>
  The loop \<open>for oldCap < newCap { oldCap += oldCap }\<close> of \<open>checkCapacity\<close>. The addition
  wraps around, so the loop does not end once \<open>oldCap\<close> has become 0.
\<close>

partial_function (option) checkCapacity_loop :: "uint \<Rightarrow> uint \<Rightarrow> uint option" where
  "checkCapacity_loop oldCap newCap =
     (if oldCap < newCap then checkCapacity_loop (oldCap + oldCap) newCap else Some oldCap)"

declare checkCapacity_loop.simps [code]

definition checkCapacity :: "ByteArray \<Rightarrow> uint \<Rightarrow> ByteArray res option" where
  "checkCapacity b newCap =
     (let oldCap = (of_nat (length (raw b)) :: uint) in
      if 0 = oldCap then
        Some (bind_panic (make_bytes newCap) (\<lambda>r. Return (b\<lparr>raw := r, spare := []\<rparr>)))
      else if oldCap < newCap then
        (case checkCapacity_loop (oldCap + oldCap) newCap of
           None \<Rightarrow> None
         | Some oldCap' \<Rightarrow>
             Some (bind_panic (slice_get b 0 (lengthB b)) (\<lambda>oldRaw.
                   bind_panic (make_bytes oldCap') (\<lambda>r.
                   Return (b\<lparr>raw := take (length r) oldRaw @ drop (length oldRaw) r,
                              spare := []\<rparr>)))))
      else Some (Return b))"

definition movePointer :: "ByteArray \<Rightarrow> uint \<Rightarrow> uint \<Rightarrow> ByteArray" where
  "movePointer b moveBytes pointerType =
     (let newPos = position b + moveBytes;
          b1 = (if 0 < (pointerPosition AND pointerType) then b\<lparr>position := newPos\<rparr> else b)
      in if 0 < (pointerLength AND pointerType) \<and> lengthB b1 < newPos
         then b1\<lparr>lengthB := newPos\<rparr> else b1)"

subsection \<open>Length and clearing\<close>

definition SetLength :: "ByteArray \<Rightarrow> uint \<Rightarrow> ByteArray res option" where
  "SetLength b newLen =
     (if lengthB b = newLen then Some (Return b)
      else bind_res (if lengthB b < newLen then checkCapacity b newLen else Some (Return b))
        (\<lambda>b1. let b2 = b1\<lparr>lengthB := newLen\<rparr>
              in Some (Return (if position b2 > lengthB b2 then SetPosition b2 (lengthB b2) else b2))))"

definition Clear :: "ByteArray \<Rightarrow> ByteArray res option" where
  "Clear b = SetLength (SetPosition b 0) 0"

text \<open>
  \<open>NewByteArray(raw)\<close>: the argument is \<open>None\<close> for \<open>nil\<close>, and otherwise the
  elements of the slice together with those of its spare capacity. The fields of
  \<open>&ByteArray{}\<close> are the zero values: a nil slice, a nil \<open>endian\<close>, position 0 and
  length 0.
\<close>

definition NewByteArray :: "(byte list \<times> byte list) option \<Rightarrow> ByteArray res option" where
  "NewByteArray arg =
     (let b0 = \<lparr>raw = [], spare = [], endian = None, position = 0, lengthB = 0\<rparr>;
          b1 = (case arg of
                  None \<Rightarrow> b0\<lparr>raw := [], spare := []\<rparr>
                | Some (elems, rest) \<Rightarrow> b0\<lparr>raw := elems, spare := rest\<rparr>)
      in SetLength (SetPosition (SetEndian b1 EndianBig) 0) 0)"

subsection \<open>Reading\<close>

text \<open>
  A read returns the pair of its two Go results (the value, which is the zero value
  when the error is set, and the error, \<open>None\<close> for \<open>nil\<close>) and the buffer after the call.
\<close>

definition ReadBoolean :: "ByteArray \<Rightarrow> ((bool \<times> error option) \<times> ByteArray) res" where
  "ReadBoolean b =
     (case checkLength b byteWide1 of
        Some err \<Rightarrow> Return ((False, Some err), b)
      | None \<Rightarrow> bind_panic (index_get b (position b)) (\<lambda>v.
                 Return ((0 \<noteq> v, None), movePointer b byteWide1 pointerPosition)))"

definition ReadByte :: "ByteArray \<Rightarrow> ((byte \<times> error option) \<times> ByteArray) res" where
  "ReadByte b =
     (case checkLength b byteWide1 of
        Some err \<Rightarrow> Return ((0, Some err), b)
      | None \<Rightarrow> bind_panic (index_get b (position b)) (\<lambda>v.
                 Return ((v, None), movePointer b byteWide1 pointerPosition)))"

definition ReadDouble :: "ByteArray \<Rightarrow> ((uint64 \<times> error option) \<times> ByteArray) res" where
  "ReadDouble b =
     (case checkLength b byteWide8 of
        Some err \<Rightarrow> Return ((0, Some err), b)
      | None \<Rightarrow> bind_panic (get_uint b (position b) 8) (\<lambda>v.
                 Return ((v, None), movePointer b byteWide8 pointerPosition)))"

definition ReadFloat :: "ByteArray \<Rightarrow> ((uint32 \<times> error option) \<times> ByteArray) res" where
  "ReadFloat b =
     (case checkLength b byteWide4 of
        Some err \<Rightarrow> Return ((0, Some err), b)
      | None \<Rightarrow> bind_panic (get_uint b (position b) 4) (\<lambda>v.
                 Return ((v, None), movePointer b byteWide4 pointerPosition)))"

text \<open>
  \<open>ReadInt\<close> returns a Go \<open>int\<close>: the conversion \<open>int(x)\<close> of a \<open>uint32\<close> widens it
  to 64 bits without sign extension. The result is given as the integer it denotes.
\<close>

definition ReadInt :: "ByteArray \<Rightarrow> ((int \<times> error option) \<times> ByteArray) res" where
  "ReadInt b =
     (case checkLength b byteWide4 of
        Some err \<Rightarrow> Return ((0, Some err), b)
      | None \<Rightarrow> bind_panic (get_uint b (position b) 4) (\<lambda>v :: uint32.
                 Return ((sint (ucast v :: 64 word), None), movePointer b byteWide4 pointerPosition)))"

definition ReadShort :: "ByteArray \<Rightarrow> ((uint16 \<times> error option) \<times> ByteArray) res" where
  "ReadShort b =
     (case checkLength b byteWide2 of
        Some err \<Rightarrow> Return ((0, Some err), b)
      | None \<Rightarrow> bind_panic (get_uint b (position b) 2) (\<lambda>v.
                 Return ((v, None), movePointer b byteWide2 pointerPosition)))"

definition ReadUnsignedByte :: "ByteArray \<Rightarrow> ((byte \<times> error option) \<times> ByteArray) res" where
  "ReadUnsignedByte b =
     (case checkLength b byteWide1 of
        Some err \<Rightarrow> Return ((0, Some err), b)
      | None \<Rightarrow> bind_panic (index_get b (position b)) (\<lambda>v.
                 Return ((v, None), movePointer b byteWide1 pointerPosition)))"

definition ReadUnsignedInt :: "ByteArray \<Rightarrow> ((uint \<times> error option) \<times> ByteArray) res" where
  "ReadUnsignedInt b =
     (case checkLength b byteWide4 of
        Some err \<Rightarrow> Return ((0, Some err), b)
      | None \<Rightarrow> bind_panic (get_uint b (position b) 4) (\<lambda>v :: uint32.
                 Return ((ucast v, None), movePointer b byteWide4 pointerPosition)))"

definition ReadUnsignedShort :: "ByteArray \<Rightarrow> ((uint16 \<times> error option) \<times> ByteArray) res" where
  "ReadUnsignedShort b =
     (case checkLength b byteWide2 of
        Some err \<Rightarrow> Return ((0, Some err), b)
      | None \<Rightarrow> bind_panic (get_uint b (position b) 2) (\<lambda>v.
                 Return ((v, None), movePointer b byteWide2 pointerPosition)))"

definition ReadUTFBytes :: "ByteArray \<Rightarrow> uint16 \<Rightarrow> ((byte list \<times> error option) \<times> ByteArray) res" where
  "ReadUTFBytes b len =
     (case checkLength b (ucast len) of
        Some err \<Rightarrow> Return (([], Some err), b)
      | None \<Rightarrow> bind_panic (slice_get b (position b) (position b + ucast len)) (\<lambda>str.
                 Return ((str, None), movePointer b (ucast len) pointerPosition)))"

text \<open>\<open>ReadUTF\<close> drops the error of \<open>ReadUnsignedShort\<close> and goes on with its value.\<close>

definition ReadUTF :: "ByteArray \<Rightarrow> ((byte list \<times> error option) \<times> ByteArray) res" where
  "ReadUTF b =
     bind_panic (ReadUnsignedShort b) (\<lambda>((len, _), b1). ReadUTFBytes b1 len)"

text \<open>
  \<open>b.ReadBytes(bytes, offset, length)\<close> for two different buffers \<open>b\<close> and \<open>bytes\<close>:
  the result holds the error and both buffers after the call. \<open>ReadBytes_copy\<close> is the
  part of the body after the availability check, with the length that the check settled.
\<close>

definition ReadBytes_copy ::
  "ByteArray \<Rightarrow> ByteArray \<Rightarrow> uint \<Rightarrow> uint \<Rightarrow> (error option \<times> ByteArray \<times> ByteArray) res option" where
  "ReadBytes_copy b bytes offset len =
     (if MaxUint32 < offset + len then Some (Return (Some ErrorRange, b, bytes))
      else bind_res (checkCapacity bytes (offset + len)) (\<lambda>bytes1.
           Some (bind_panic (slice_get b (position b) (position b + len)) (\<lambda>src.
                 bind_panic (copy_range bytes1 offset (offset + len) src) (\<lambda>bytes2.
                 let bytes3 = (if offset + len > lengthB bytes2
                               then movePointer bytes2 (offset + len - lengthB bytes2) pointerLength
                               else bytes2)
                 in Return (None, movePointer b len pointerPosition, bytes3))))))"

definition ReadBytes ::
  "ByteArray \<Rightarrow> ByteArray \<Rightarrow> uint \<Rightarrow> uint \<Rightarrow> (error option \<times> ByteArray \<times> ByteArray) res option" where
  "ReadBytes b bytes offset len =
     (if 0 = len then
        (let len1 = BytesAvailable b
         in if 0 = len1 then Some (Return (None, b, bytes))
            else ReadBytes_copy b bytes offset len1)
      else
        (case checkLength b len of
           Some err \<Rightarrow> Some (Return (Some err, b, bytes))
         | None \<Rightarrow> ReadBytes_copy b bytes offset len))"

subsection \<open>Writing\<close>

definition WriteBoolean :: "ByteArray \<Rightarrow> bool \<Rightarrow> ByteArray res option" where
  "WriteBoolean b v =
     bind_res (checkCapacity b (position b + byteWide1)) (\<lambda>b1.
     Some (bind_panic (index_set b1 (position b1) 0) (\<lambda>b2.
           bind_panic (if v then index_set b2 (position b2) 1 else Return b2) (\<lambda>b3.
           Return (movePointer b3 byteWide1 (pointerPosition OR pointerLength))))))"

definition WriteByte :: "ByteArray \<Rightarrow> byte \<Rightarrow> ByteArray res option" where
  "WriteByte b v =
     bind_res (checkCapacity b (position b + byteWide1)) (\<lambda>b1.
     Some (bind_panic (index_set b1 (position b1) v) (\<lambda>b2.
           Return (movePointer b2 byteWide1 (pointerPosition OR pointerLength)))))"

text \<open>
  \<open>b.WriteBytes(bytes, offset, length)\<close> for two different buffers; \<open>bytes\<close> is only
  read, so the result is \<open>b\<close> after the call.
\<close>

definition WriteBytes :: "ByteArray \<Rightarrow> ByteArray \<Rightarrow> uint \<Rightarrow> uint \<Rightarrow> ByteArray res option" where
  "WriteBytes b bytes offset0 len0 =
     (let offset = (if lengthB bytes < offset0 then 0 else offset0);
          len = (if 0 = len0 \<or> lengthB bytes < offset + len0 then lengthB bytes - offset else len0)
      in bind_res (checkCapacity b (position b + len)) (\<lambda>b1.
         Some (bind_panic (slice_get bytes offset (offset + len)) (\<lambda>src.
               bind_panic (copy_range b1 (position b1) (position b1 + len) src) (\<lambda>b2.
               Return (movePointer b2 len pointerPosition))))))"

definition WriteDouble :: "ByteArray \<Rightarrow> uint64 \<Rightarrow> ByteArray res option" where
  "WriteDouble b v =
     bind_res (checkCapacity b (position b + byteWide8)) (\<lambda>b1.
     Some (bind_panic (put_uint b1 (position b1) 8 v) (\<lambda>b2.
           Return (movePointer b2 byteWide8 (pointerPosition OR pointerLength)))))"

definition WriteFloat :: "ByteArray \<Rightarrow> uint32 \<Rightarrow> ByteArray res option" where
  "WriteFloat b v =
     bind_res (checkCapacity b (position b + byteWide4)) (\<lambda>b1.
     Some (bind_panic (put_uint b1 (position b1) 4 v) (\<lambda>b2.
           Return (movePointer b2 byteWide4 (pointerPosition OR pointerLength)))))"

definition WriteInt :: "ByteArray \<Rightarrow> uint32 \<Rightarrow> ByteArray res option" where
  "WriteInt b v =
     bind_res (checkCapacity b (position b + byteWide4)) (\<lambda>b1.
     Some (bind_panic (put_uint b1 (position b1) 4 v) (\<lambda>b2.
           Return (movePointer b2 byteWide4 (pointerPosition OR pointerLength)))))"

definition WriteShort :: "ByteArray \<Rightarrow> uint16 \<Rightarrow> ByteArray res option" where
  "WriteShort b v =
     bind_res (checkCapacity b (position b + byteWide2)) (\<lambda>b1.
     Some (bind_panic (put_uint b1 (position b1) 2 v) (\<lambda>b2.
           Return (movePointer b2 byteWide2 (pointerPosition OR pointerLength)))))"

definition WriteUnsignedInt :: "ByteArray \<Rightarrow> uint32 \<Rightarrow> ByteArray res option" where
  "WriteUnsignedInt b v =
     bind_res (checkCapacity b (position b + byteWide4)) (\<lambda>b1.
     Some (bind_panic (put_uint b1 (position b1) 4 v) (\<lambda>b2.
           Return (movePointer b2 byteWide4 (pointerPosition OR pointerLength)))))"

text \<open>
  \<open>len(bs)\<close> is an \<open>int\<close>, converted to \<open>uint\<close>; \<open>int16(length)\<close> keeps its low 16 bits.
\<close>

definition WriteUTFBytes :: "ByteArray \<Rightarrow> byte list \<Rightarrow> ByteArray res option" where
  "WriteUTFBytes b bs =
     (let len = (of_nat (length bs) :: uint)
      in bind_res (checkCapacity b (position b + len)) (\<lambda>b1.
         Some (bind_panic (copy_from b1 (position b1) bs) (\<lambda>b2.
               Return (movePointer b2 len (pointerPosition OR pointerLength))))))"

definition WriteUTF :: "ByteArray \<Rightarrow> byte list \<Rightarrow> ByteArray res option" where
  "WriteUTF b bs =
     (let len = (of_nat (length bs) :: uint)
      in bind_res (WriteShort b (ucast len)) (\<lambda>b0.
         bind_res (checkCapacity b0 (position b0 + len)) (\<lambda>b1.
         Some (bind_panic (copy_from b1 (position b1) bs) (\<lambda>b2.
               Return (movePointer b2 len (pointerPosition OR pointerLength)))))))"

section \<open>The second implementation (src/unnamed/part_000)\<close>

text \<open>
  The file repeats the functions above word for word, except for \<open>NewByteArray\<close>
  (no argument), \<open>checkCapacity\<close> (which has no branch that leaves the buffer alone) and
  the name of \<open>writeBytes\<close>. The functions that differ are embedded here.
\<close>

definition checkCapacity_part000 :: "ByteArray \<Rightarrow> uint \<Rightarrow> ByteArray res option" where
  "checkCapacity_part000 b newCap =
     (let oldCap = (of_nat (length (raw b)) :: uint) in
      if 0 = oldCap then
        Some (bind_panic (make_bytes newCap) (\<lambda>r. Return (b\<lparr>raw := r, spare := []\<rparr>)))
      else
        (case checkCapacity_loop oldCap newCap of
           None \<Rightarrow> None
         | Some oldCap' \<Rightarrow>
             Some (bind_panic (slice_get b 0 (lengthB b)) (\<lambda>src.
                   bind_panic (make_bytes oldCap') (\<lambda>r.
                   Return (b\<lparr>raw := take (length r) src @ drop (length src) r,
                              spare := []\<rparr>))))))"

definition writeBytes_part000 :: "ByteArray \<Rightarrow> ByteArray \<Rightarrow> uint \<Rightarrow> uint \<Rightarrow> ByteArray res option" where
  "writeBytes_part000 b bytes offset0 len0 =
     (let offset = (if lengthB bytes < offset0 then 0 else offset0);
          len = (if 0 = len0 \<or> lengthB bytes < offset + len0 then lengthB bytes - offset else len0)
      in bind_res (checkCapacity_part000 b (position b + len)) (\<lambda>b1.
         Some (bind_panic (slice_get bytes offset (offset + len)) (\<lambda>src.
               bind_panic (copy_range b1 (position b1) (position b1 + len) src) (\<lambda>b2.
               Return (movePointer b2 len pointerPosition))))))"

section \<open>The relations between position, length and capacity\<close>

text \<open>
  A Go slice never holds more than \<open>maxInt\<close> elements; \<open>wf_slice\<close> says so of the
  backing array. \<open>cap_ok\<close> is \<open>length \<le> capacity\<close>, the capacity being \<open>len(b.raw)\<close> as
  in \<open>checkCapacity\<close>, and \<open>pos_ok\<close> is \<open>position \<le> length\<close>.
\<close>

definition wf_slice :: "ByteArray \<Rightarrow> bool" where
  "wf_slice b = (length (raw b) + length (spare b) \<le> unat maxInt)"

definition cap_ok :: "ByteArray \<Rightarrow> bool" where
  "cap_ok b = (unat (lengthB b) \<le> length (raw b))"

definition pos_ok :: "ByteArray \<Rightarrow> bool" where
  "pos_ok b = (position b \<le> lengthB b)"

text \<open>\<open>buffer_ok\<close> is \<open>position \<le> length \<le> capacity\<close> for a well-formed backing array.\<close>

definition buffer_ok :: "ByteArray \<Rightarrow> bool" where
  "buffer_ok b = (wf_slice b \<and> cap_ok b \<and> pos_ok b)"

text \<open>Two states that differ in the content of the backing array only.\<close>

definition same_shape :: "ByteArray \<Rightarrow> ByteArray \<Rightarrow> bool" where
  "same_shape b b' = (length (raw b') = length (raw b) \<and> length (spare b') = length (spare b) \<and>
     position b' = position b \<and> lengthB b' = lengthB b \<and> endian b' = endian b)"

section \<open>Capacity growth\<close>

lemma unat_maxInt: "unat maxInt = 9223372036854775807"
  by (simp add: maxInt_def)

lemma unat_len_raw:
  "wf_slice b \<Longrightarrow> unat (of_nat (length (raw b)) :: uint) = length (raw b)"
  by (simp add: wf_slice_def unat_maxInt unat_of_nat)

lemma unat_maxAlloc: "unat maxAlloc = 281474976710656"
  by (simp add: maxAlloc_def)

lemma make_bytes_Return:
  "make_bytes n = Return r \<Longrightarrow> r = replicate (unat n) 0 \<and> unat n \<le> unat maxInt"
  by (auto simp: make_bytes_def word_le_nat_alt unat_maxAlloc unat_maxInt split: if_splits)

text \<open>When the loop ends, the capacity it has reached covers the request.\<close>

lemma loop_result_ge:
  assumes "checkCapacity_loop a n = Some c"
  shows "n \<le> c"
  by (rule checkCapacity_loop.raw_induct[where P = "\<lambda>a n c. n \<le> c", OF _ assms])
     (auto split: if_splits simp: not_less)

lemma loop_noop: "n \<le> a \<Longrightarrow> checkCapacity_loop a n = Some a"
  by (subst checkCapacity_loop.simps) (simp add: leD)

lemma unat_double:
  fixes a :: uint
  assumes "unat a < unat n" "unat (n :: uint) \<le> 2 ^ 63"
  shows "unat (a + a) = unat a + unat a"
proof -
  have "unat a + unat a < 2 ^ LENGTH(64)" using assms by simp
  then show ?thesis by (rule unat_add_lem[THEN iffD1])
qed

text \<open>
  The loop ends for a request of at most \<open>2 ^ 63\<close> bytes when it starts from a capacity
  that is not 0: the result is the first of \<open>a, 2a, 4a, ...\<close> that covers the request.
\<close>

lemma loop_returns:
  "0 < a \<Longrightarrow> unat n \<le> 2 ^ 63 \<Longrightarrow>
   \<exists>c k. checkCapacity_loop a n = Some c \<and> n \<le> c \<and> unat c = unat a * 2 ^ k \<and>
     (a < n \<longrightarrow> unat c < 2 * unat n \<and> 0 < k) \<and> (n \<le> a \<longrightarrow> k = 0)"
proof (induction "unat n - unat a" arbitrary: a rule: less_induct)
  case less
  show ?case
  proof (cases "a < n")
    case False
    then have "checkCapacity_loop a n = Some a" by (simp add: loop_noop)
    with False show ?thesis by (intro exI[of _ a] exI[of _ 0]) simp
  next
    case True
    have lt: "unat a < unat n" using True by (simp add: word_less_nat_alt)
    have sum: "unat (a + a) = unat a + unat a"
      using lt less.prems(2) by (rule unat_double)
    have apos: "0 < unat a" using less.prems(1) by (simp add: word_less_nat_alt)
    have pos: "0 < a + a" using apos sum by (simp only: word_less_nat_alt) simp
    have "unat n - unat (a + a) < unat n - unat a"
      using lt sum apos by linarith
    from less.hyps[OF this pos less.prems(2)]
    obtain c k where ck: "checkCapacity_loop (a + a) n = Some c" "n \<le> c"
      "unat c = unat (a + a) * 2 ^ k" "a + a < n \<longrightarrow> unat c < 2 * unat n"
      "n \<le> a + a \<longrightarrow> k = 0" by blast
    have step: "checkCapacity_loop a n = Some c"
      using True ck(1) by (subst checkCapacity_loop.simps) (simp only: if_True)
    have bound: "unat c < 2 * unat n"
    proof (cases "a + a < n")
      case True
      with ck(4) show ?thesis by simp
    next
      case False
      then have "k = 0" using ck(5) by (simp only: not_less)
      then show ?thesis using ck(3) sum lt by simp
    qed
    have "unat c = unat a * 2 ^ Suc k" using ck(3) sum by simp
    with step ck(2) bound True show ?thesis
      by (intro exI[of _ c] exI[of _ "Suc k"]) (simp add: not_le)
  qed
qed

text \<open>
  Beyond that bound the loop need not end: once the doubled capacity has wrapped around
  to 0 it stays 0, which happens from capacity \<open>2 ^ 63\<close> on.
\<close>

lemma loop_never_from_zero:
  assumes "checkCapacity_loop a n = Some c"
  shows "\<not> (a = 0 \<and> 0 < n)"
  by (rule checkCapacity_loop.raw_induct[where P = "\<lambda>a n c. \<not> (a = 0 \<and> 0 < n)", OF _ assms])
     (auto split: if_splits)

lemma loop_diverges:
  "0 < n \<Longrightarrow> checkCapacity_loop 0 n = None"
  "9223372036854775808 < n \<Longrightarrow> checkCapacity_loop 9223372036854775808 n = None"
proof -
  show z: "checkCapacity_loop 0 n = None" if "0 < n"
    using loop_never_from_zero[of 0 n] that by (cases "checkCapacity_loop 0 n") auto
  show "checkCapacity_loop 9223372036854775808 n = None" if h: "9223372036854775808 < n"
  proof -
    have "0 < n" using h by (simp add: word_less_nat_alt)
    then have none: "checkCapacity_loop 0 n = None" by (rule z)
    have wrap: "(9223372036854775808 :: uint) + 9223372036854775808 = 0" by simp
    have "checkCapacity_loop 9223372036854775808 n =
          checkCapacity_loop (9223372036854775808 + 9223372036854775808) n"
      using h by (subst checkCapacity_loop.simps) (simp only: if_True)
    then show ?thesis by (simp only: wrap none)
  qed
qed

text \<open>What a call of \<open>checkCapacity\<close> that returns leaves behind.\<close>

lemma checkCapacity_Return:
  assumes wf: "wf_slice b" and cap: "cap_ok b"
    and ret: "checkCapacity b n = Some (Return b')"
  shows "unat n \<le> length (raw b') \<and> length (raw b) \<le> length (raw b') \<and>
         position b' = position b \<and> lengthB b' = lengthB b \<and> endian b' = endian b \<and>
         wf_slice b' \<and> cap_ok b'"
proof -
  let ?old = "of_nat (length (raw b)) :: uint"
  have old: "unat ?old = length (raw b)" using wf by (rule unat_len_raw)
  consider (zero) "?old = 0" | (grow) "?old \<noteq> 0" "?old < n" | (keep) "?old \<noteq> 0" "\<not> ?old < n"
    by blast
  then show ?thesis
  proof cases
    case zero
    then have len0: "length (raw b) = 0" using old by simp
    from ret zero obtain r where r: "make_bytes n = Return r" "b' = b\<lparr>raw := r, spare := []\<rparr>"
      by (auto simp: checkCapacity_def bind_panic_def split: res.splits)
    from make_bytes_Return[OF r(1)] r(2) len0 cap show ?thesis
      by (simp add: wf_slice_def cap_ok_def)
  next
    case grow
    from ret grow obtain c oldRaw r where
      c: "checkCapacity_loop (?old + ?old) n = Some c" and
      o: "slice_get b 0 (lengthB b) = Return oldRaw" and
      r: "make_bytes c = Return r" and
      b': "b' = b\<lparr>raw := take (length r) oldRaw @ drop (length oldRaw) r, spare := []\<rparr>"
      by (auto simp: checkCapacity_def bind_panic_def Let_def split: res.splits option.splits)
    have nc: "unat n \<le> unat c" using loop_result_ge[OF c] by (simp add: word_le_nat_alt)
    have lr: "length r = unat c" "unat c \<le> unat maxInt" using make_bytes_Return[OF r] by simp_all
    have lo: "length oldRaw = unat (lengthB b)"
      using o cap by (auto simp: slice_get_def cap_ok_def split: if_splits)
    have lt: "length (raw b) < unat n" using grow(2) old by (simp add: word_less_nat_alt)
    have "length (raw b') = unat c" using b' lr lo by simp
    with nc lt lr cap b' show ?thesis by (simp add: wf_slice_def cap_ok_def)
  next
    case keep
    then have "b' = b" using ret by (simp add: checkCapacity_def)
    moreover have "unat n \<le> length (raw b)" using keep(2) old by (simp add: word_less_nat_alt)
    ultimately show ?thesis using wf cap by simp
  qed
qed

lemma checkCapacity_enough:
  assumes "wf_slice b" "0 < length (raw b)" "unat n \<le> length (raw b)"
  shows "checkCapacity b n = Some (Return b)"
proof -
  let ?old = "of_nat (length (raw b)) :: uint"
  have old: "unat ?old = length (raw b)" using assms(1) by (rule unat_len_raw)
  have "?old \<noteq> 0" using old assms(2) by auto
  moreover have "\<not> ?old < n" using old assms(3) by (simp add: word_less_nat_alt)
  ultimately show ?thesis by (simp add: checkCapacity_def)
qed

text \<open>
  The loop from capacity \<open>a\<close> ends with \<open>a * 2 ^ k\<close> when that is the first of
  \<open>a, 2a, 4a, ...\<close> to cover the request and the doubling has not wrapped around.
\<close>

lemma loop_exact:
  fixes a n :: uint
  assumes "unat a * 2 ^ k < 2 ^ 64" "unat n \<le> unat a * 2 ^ k"
    and "0 < k \<longrightarrow> unat a * 2 ^ (k - 1) < unat n"
  shows "checkCapacity_loop a n = Some (a * 2 ^ k) \<and> unat (a * 2 ^ k) = unat a * 2 ^ k"
  using assms
proof (induction k arbitrary: a)
  case 0
  then have "n \<le> a" by (simp add: word_le_nat_alt)
  then show ?case by (simp add: loop_noop)
next
  case (Suc k)
  have small: "unat a * 2 ^ k < unat n" using Suc.prems(3) by simp
  have "unat a \<le> unat a * 2 ^ k" by simp
  with small have lt: "unat a < unat n" by linarith
  have "unat a + unat a < 2 ^ LENGTH(64)"
  proof -
    have e: "unat a * 2 ^ Suc k = (unat a + unat a) * 2 ^ k" by simp
    have "unat a + unat a \<le> (unat a + unat a) * 2 ^ k" by simp
    then have "unat a + unat a < 2 ^ 64" using Suc.prems(1) e by linarith
    then show ?thesis by simp
  qed
  then have sum: "unat (a + a) = unat a + unat a" by (rule unat_add_lem[THEN iffD1])
  have p1: "unat (a + a) * 2 ^ k < 2 ^ 64" using sum Suc.prems(1) by (simp add: algebra_simps)
  have p2: "unat n \<le> unat (a + a) * 2 ^ k" using sum Suc.prems(2) by (simp add: algebra_simps)
  have p3: "0 < k \<longrightarrow> unat (a + a) * 2 ^ (k - 1) < unat n"
  proof
    assume "0 < k"
    then obtain j where j: "k = Suc j" by (cases k) simp_all
    show "unat (a + a) * 2 ^ (k - 1) < unat n" using small sum j by (simp add: algebra_simps)
  qed
  from Suc.IH[OF p1 p2 p3] have ih: "checkCapacity_loop (a + a) n = Some ((a + a) * 2 ^ k)"
    "unat ((a + a) * 2 ^ k) = unat (a + a) * 2 ^ k" by simp_all
  have eq: "(a + a) * 2 ^ k = a * 2 ^ Suc k" by (simp add: algebra_simps)
  have "a < n" using lt by (simp add: word_less_nat_alt)
  then have "checkCapacity_loop a n = checkCapacity_loop (a + a) n"
    by (subst checkCapacity_loop.simps) (simp only: if_True)
  then show ?case using ih eq sum by (simp add: algebra_simps)
qed

text \<open>
  From a capacity that is a power of two the loop does not end for a request above
  \<open>2 ^ 63\<close>: the capacity reaches \<open>2 ^ 63\<close>, wraps around to 0 and stays there.
\<close>

lemma loop_hangs:
  fixes n :: uint
  assumes "9223372036854775808 < n" "j \<le> 63"
  shows "checkCapacity_loop (of_nat (2 ^ (63 - j))) n = None"
  using assms(2)
proof (induction j)
  case 0
  show ?case using loop_diverges(2)[OF assms(1)] by simp
next
  case (Suc j)
  let ?m = "63 - Suc j"
  have m: "63 - j = Suc ?m" using Suc.prems by simp
  have le: "(2 :: nat) ^ ?m \<le> 2 ^ 63" by (rule power_increasing) simp_all
  then have "(2 :: nat) ^ ?m < 2 ^ LENGTH(64)" by simp
  then have "(2 :: nat) ^ ?m mod 2 ^ LENGTH(64) = 2 ^ ?m" by (rule mod_less)
  then have u: "unat (of_nat (2 ^ ?m) :: uint) = 2 ^ ?m" by (simp only: unat_of_nat)
  have "9223372036854775808 < unat n" using assms(1) by (simp add: word_less_nat_alt)
  then have "unat (of_nat (2 ^ ?m) :: uint) < unat n" using le by (simp only: u) simp
  then have "(of_nat (2 ^ ?m) :: uint) < n" by (simp only: word_less_nat_alt)
  then have "checkCapacity_loop (of_nat (2 ^ ?m)) n =
             checkCapacity_loop (of_nat (2 ^ ?m) + of_nat (2 ^ ?m)) n"
    by (subst checkCapacity_loop.simps) (simp only: if_True)
  also have "(of_nat (2 ^ ?m) + of_nat (2 ^ ?m) :: uint) = of_nat (2 ^ (63 - j))"
    by (simp only: m power_Suc mult_2 of_nat_add)
  also have "checkCapacity_loop (of_nat (2 ^ (63 - j))) n = None" using Suc by simp
  finally show ?case .
qed

lemma slice_get_prefix:
  "cap_ok b \<Longrightarrow> slice_get b 0 (lengthB b) = Return (take (unat (lengthB b)) (raw b))"
  by (simp add: slice_get_def cap_ok_def)

lemma checkCapacity_zero:
  assumes "length (raw b) = 0"
  shows "newCap \<le> maxAlloc \<Longrightarrow>
           checkCapacity b newCap =
             Some (Return (b\<lparr>raw := replicate (unat newCap) 0, spare := []\<rparr>)) \<and>
           checkCapacity_part000 b newCap =
             Some (Return (b\<lparr>raw := replicate (unat newCap) 0, spare := []\<rparr>))"
    and "maxAlloc < newCap \<Longrightarrow>
           checkCapacity b newCap = Some Panic \<and> checkCapacity_part000 b newCap = Some Panic"
  using assms
  by (simp_all add: checkCapacity_def checkCapacity_part000_def make_bytes_def bind_panic_def
      not_le)

text \<open>
  Growth by doubling, for the number \<open>k\<close> of doublings that first covers the request:
  the call returns when \<open>make\<close> accepts the doubled capacity, and panics when it does not.
\<close>

lemma checkCapacity_doubles:
  assumes wf: "wf_slice b" and cap: "cap_ok b"
    and h: "0 < length (raw b)" "0 < k" "length (raw b) * 2 ^ (k - 1) < unat newCap"
      "unat newCap \<le> length (raw b) * 2 ^ k" "length (raw b) * 2 ^ k < 2 ^ 64"
  shows "length (raw b) * 2 ^ k \<le> unat maxAlloc \<Longrightarrow>
           checkCapacity b newCap =
             Some (Return (b\<lparr>raw := take (unat (lengthB b)) (raw b) @
                               replicate (length (raw b) * 2 ^ k - unat (lengthB b)) 0,
                            spare := []\<rparr>)) \<and>
           checkCapacity_part000 b newCap =
             Some (Return (b\<lparr>raw := take (unat (lengthB b)) (raw b) @
                               replicate (length (raw b) * 2 ^ k - unat (lengthB b)) 0,
                            spare := []\<rparr>))"
    and "unat maxAlloc < length (raw b) * 2 ^ k \<Longrightarrow>
           checkCapacity b newCap = Some Panic \<and> checkCapacity_part000 b newCap = Some Panic"
proof -
  let ?old = "of_nat (length (raw b)) :: uint"
  let ?c = "?old * 2 ^ k"
  have old: "unat ?old = length (raw b)" using wf by (rule unat_len_raw)
  have "length (raw b) \<le> length (raw b) * 2 ^ (k - 1)" by simp
  with h(3) have ltn: "length (raw b) < unat newCap" by linarith
  have lt: "?old < newCap" using old ltn by (simp add: word_less_nat_alt)
  have nz: "(0::uint) \<noteq> ?old" using old h(1) by auto
  from loop_exact[of ?old k newCap] old h
  have l1: "checkCapacity_loop ?old newCap = Some ?c" and c: "unat ?c = length (raw b) * 2 ^ k"
    by simp_all
  have l2: "checkCapacity_loop (?old + ?old) newCap = Some ?c"
    using l1 lt by (subst (asm) checkCapacity_loop.simps) (simp only: if_True)
  have L: "unat (lengthB b) \<le> length (raw b)" using cap by (simp add: cap_ok_def)
  have Lc: "unat (lengthB b) \<le> unat ?c" using L ltn h(4) c by linarith
  show "checkCapacity b newCap =
             Some (Return (b\<lparr>raw := take (unat (lengthB b)) (raw b) @
                               replicate (length (raw b) * 2 ^ k - unat (lengthB b)) 0,
                            spare := []\<rparr>)) \<and>
           checkCapacity_part000 b newCap =
             Some (Return (b\<lparr>raw := take (unat (lengthB b)) (raw b) @
                               replicate (length (raw b) * 2 ^ k - unat (lengthB b)) 0,
                            spare := []\<rparr>))"
    if "length (raw b) * 2 ^ k \<le> unat maxAlloc"
  proof -
    have mx: "?c \<le> maxAlloc" using that c by (simp add: word_le_nat_alt)
    have "checkCapacity b newCap =
        Some (Return (b\<lparr>raw := take (unat (lengthB b)) (raw b) @
                           replicate (unat ?c - unat (lengthB b)) 0, spare := []\<rparr>))"
      using nz lt l2 mx L Lc
      by (simp add: checkCapacity_def Let_def slice_get_prefix[OF cap] make_bytes_def
          bind_panic_def)
    moreover have "checkCapacity_part000 b newCap =
        Some (Return (b\<lparr>raw := take (unat (lengthB b)) (raw b) @
                           replicate (unat ?c - unat (lengthB b)) 0, spare := []\<rparr>))"
      using nz l1 mx L Lc
      by (simp add: checkCapacity_part000_def Let_def slice_get_prefix[OF cap] make_bytes_def
          bind_panic_def)
    ultimately show ?thesis using c by simp
  qed
  show "checkCapacity b newCap = Some Panic \<and> checkCapacity_part000 b newCap = Some Panic"
    if "unat maxAlloc < length (raw b) * 2 ^ k"
  proof -
    have mx: "\<not> ?c \<le> maxAlloc" using that c by (simp add: word_le_nat_alt)
    have "checkCapacity b newCap = Some Panic"
      using nz lt l2 mx
      by (simp add: checkCapacity_def Let_def slice_get_prefix[OF cap] make_bytes_def
          bind_panic_def)
    moreover have "checkCapacity_part000 b newCap = Some Panic"
      using nz l1 mx
      by (simp add: checkCapacity_part000_def Let_def slice_get_prefix[OF cap] make_bytes_def
          bind_panic_def)
    ultimately show ?thesis by simp
  qed
qed

lemma checkCapacity_part000_enough:
  assumes wf: "wf_slice b" and cap: "cap_ok b"
    and h: "0 < length (raw b)" "unat newCap \<le> length (raw b)"
      "length (raw b) \<le> unat maxAlloc"
  shows "checkCapacity_part000 b newCap =
           Some (Return (b\<lparr>raw := take (unat (lengthB b)) (raw b) @
                             replicate (length (raw b) - unat (lengthB b)) 0,
                          spare := []\<rparr>))"
proof -
  let ?old = "of_nat (length (raw b)) :: uint"
  have old: "unat ?old = length (raw b)" using wf by (rule unat_len_raw)
  have nz: "(0::uint) \<noteq> ?old" using old h(1) by auto
  have "newCap \<le> ?old" using old h(2) by (simp add: word_le_nat_alt)
  then have l: "checkCapacity_loop ?old newCap = Some ?old" by (rule loop_noop)
  have mx: "?old \<le> maxAlloc" using old h(3) by (simp add: word_le_nat_alt)
  have L: "unat (lengthB b) \<le> length (raw b)" using cap by (simp add: cap_ok_def)
  show ?thesis using nz l mx L old
    by (simp add: checkCapacity_part000_def Let_def slice_get_prefix[OF cap] make_bytes_def
        bind_panic_def)
qed

text \<open>\<open>checkCapacity\<close> returns for every request of at most \<open>2 ^ 47\<close> bytes.\<close>

lemma checkCapacity_total:
  assumes wf: "wf_slice b" and cap: "cap_ok b" and n: "unat n \<le> 2 ^ 47"
  shows "\<exists>b1. checkCapacity b n = Some (Return b1)"
proof -
  consider "length (raw b) = 0" | "0 < length (raw b)" "length (raw b) < unat n"
    | "0 < length (raw b)" "unat n \<le> length (raw b)" by linarith
  then show ?thesis
  proof cases
    case 1
    have "n \<le> maxAlloc" using n by (simp add: word_le_nat_alt unat_maxAlloc)
    with checkCapacity_zero(1)[OF 1, of n] show ?thesis by simp
  next
    case 2
    let ?old = "of_nat (length (raw b)) :: uint"
    have old: "unat ?old = length (raw b)" using wf by (rule unat_len_raw)
    have pos: "0 < ?old" using old 2(1) by (simp add: word_less_nat_alt)
    have lt: "?old < n" using old 2(2) by (simp add: word_less_nat_alt)
    have n63: "unat n \<le> 2 ^ 63" using n by simp
    from loop_returns[OF pos n63] lt old
    obtain c k where ck: "unat c = length (raw b) * 2 ^ k" "unat c < 2 * unat n" "0 < k"
      "n \<le> c" by auto
    obtain j where j: "k = Suc j" using ck(3) by (cases k) simp_all
    have half: "length (raw b) * 2 ^ (k - 1) < unat n" using ck(1,2) j by simp
    have ge: "unat n \<le> length (raw b) * 2 ^ k" using ck(1,4) by (simp add: word_le_nat_alt)
    have small: "length (raw b) * 2 ^ k \<le> unat maxAlloc"
      using ck(1,2) n by (simp add: unat_maxAlloc)
    then have w: "length (raw b) * 2 ^ k < 2 ^ 64" by (simp add: unat_maxAlloc)
    from checkCapacity_doubles(1)[OF wf cap 2(1) ck(3) half ge w small] show ?thesis by blast
  next
    case 3
    with checkCapacity_enough[OF wf] show ?thesis by blast
  qed
qed

text \<open>
  C7, as the code has it, for both implementations and a buffer with
  \<open>length \<le> capacity\<close>. With capacity 0 the routine allocates exactly the requested number
  of bytes when \<open>make\<close> accepts the request (at most \<open>maxAlloc\<close> bytes), and panics
  otherwise. With \<open>0 < capacity < requested\<close>, where \<open>k \<ge> 1\<close> is the first number of
  doublings that covers the request (and the doubled capacity has not wrapped around),
  it returns with the capacity doubled \<open>k\<close> times and a store that holds the old bytes
  below the length, followed by zeros, when \<open>make\<close> accepts the doubled capacity, and
  panics otherwise. With \<open>0 < capacity\<close> and \<open>requested \<le> capacity\<close> the capacity stays
  as it is: the first implementation returns the buffer untouched, the second one
  reallocates a store of the same size and copies the bytes below the length. An
  allocation that \<open>make\<close> accepts is taken to succeed: running out of memory is a
  fatal error of the runtime and not a result of the routine.
\<close>

theorem C7_checkCapacity:
  assumes "wf_slice b" "cap_ok b"
  shows
  "(length (raw b) = 0 \<and> newCap \<le> maxAlloc \<longrightarrow>
      checkCapacity b newCap =
        Some (Return (b\<lparr>raw := replicate (unat newCap) 0, spare := []\<rparr>)) \<and>
      checkCapacity_part000 b newCap =
        Some (Return (b\<lparr>raw := replicate (unat newCap) 0, spare := []\<rparr>))) \<and>
   (length (raw b) = 0 \<and> maxAlloc < newCap \<longrightarrow>
      checkCapacity b newCap = Some Panic \<and> checkCapacity_part000 b newCap = Some Panic) \<and>
   (0 < length (raw b) \<and> 0 < k \<and> length (raw b) * 2 ^ (k - 1) < unat newCap \<and>
    unat newCap \<le> length (raw b) * 2 ^ k \<and> length (raw b) * 2 ^ k \<le> unat maxAlloc \<longrightarrow>
      checkCapacity b newCap =
        Some (Return (b\<lparr>raw := take (unat (lengthB b)) (raw b) @
                          replicate (length (raw b) * 2 ^ k - unat (lengthB b)) 0,
                       spare := []\<rparr>)) \<and>
      checkCapacity_part000 b newCap =
        Some (Return (b\<lparr>raw := take (unat (lengthB b)) (raw b) @
                          replicate (length (raw b) * 2 ^ k - unat (lengthB b)) 0,
                       spare := []\<rparr>))) \<and>
   (0 < length (raw b) \<and> 0 < k \<and> length (raw b) * 2 ^ (k - 1) < unat newCap \<and>
    unat newCap \<le> length (raw b) * 2 ^ k \<and> unat maxAlloc < length (raw b) * 2 ^ k \<and>
    length (raw b) * 2 ^ k < 2 ^ 64 \<longrightarrow>
      checkCapacity b newCap = Some Panic \<and> checkCapacity_part000 b newCap = Some Panic) \<and>
   (0 < length (raw b) \<and> unat newCap \<le> length (raw b) \<longrightarrow>
      checkCapacity b newCap = Some (Return b)) \<and>
   (0 < length (raw b) \<and> unat newCap \<le> length (raw b) \<and>
    length (raw b) \<le> unat maxAlloc \<longrightarrow>
      checkCapacity_part000 b newCap =
        Some (Return (b\<lparr>raw := take (unat (lengthB b)) (raw b) @
                          replicate (length (raw b) - unat (lengthB b)) 0,
                       spare := []\<rparr>)))"
proof -
  have small: "length (raw b) * 2 ^ k < 2 ^ 64" if "length (raw b) * 2 ^ k \<le> unat maxAlloc"
    using that by (simp add: unat_maxAlloc)
  show ?thesis
    using checkCapacity_zero[of b newCap]
      checkCapacity_doubles[OF assms, of k newCap] small
      checkCapacity_enough[OF assms(1), of newCap]
      checkCapacity_part000_enough[OF assms, of newCap]
    by blast
qed

theorem C7_checkCapacity_witness:
  "wf_slice \<lparr>raw = [], spare = [], endian = Some BigEndian, position = 0, lengthB = 0\<rparr> \<and>
   cap_ok \<lparr>raw = [], spare = [], endian = Some BigEndian, position = 0, lengthB = 0\<rparr> \<and>
   length (raw \<lparr>raw = [], spare = [], endian = Some BigEndian, position = 0, lengthB = 0\<rparr>) = 0 \<and>
   (4 :: uint) \<le> maxAlloc \<and>
   checkCapacity \<lparr>raw = [], spare = [], endian = Some BigEndian, position = 0, lengthB = 0\<rparr> 4 =
     Some (Return \<lparr>raw = [0, 0, 0, 0], spare = [], endian = Some BigEndian, position = 0, lengthB = 0\<rparr>) \<and>
   checkCapacity_part000 \<lparr>raw = [], spare = [], endian = Some BigEndian, position = 0, lengthB = 0\<rparr> 4 =
     Some (Return \<lparr>raw = [0, 0, 0, 0], spare = [], endian = Some BigEndian, position = 0, lengthB = 0\<rparr>) \<and>
   maxAlloc < (281474976710657 :: uint) \<and>
   checkCapacity \<lparr>raw = [], spare = [], endian = Some BigEndian, position = 0, lengthB = 0\<rparr> 281474976710657 = Some Panic \<and>
   wf_slice \<lparr>raw = [1, 2, 3, 4], spare = [], endian = Some BigEndian, position = 0, lengthB = 3\<rparr> \<and>
   cap_ok \<lparr>raw = [1, 2, 3, 4], spare = [], endian = Some BigEndian, position = 0, lengthB = 3\<rparr> \<and>
   0 < length (raw \<lparr>raw = [1, 2, 3, 4], spare = [], endian = Some BigEndian, position = 0, lengthB = 3\<rparr>) \<and>
   (0 :: nat) < 2 \<and>
   length (raw \<lparr>raw = [1, 2, 3, 4], spare = [], endian = Some BigEndian, position = 0, lengthB = 3\<rparr>) * 2 ^ (2 - 1) < unat (13 :: uint) \<and>
   unat (13 :: uint) \<le> length (raw \<lparr>raw = [1, 2, 3, 4], spare = [], endian = Some BigEndian, position = 0, lengthB = 3\<rparr>) * 2 ^ 2 \<and>
   length (raw \<lparr>raw = [1, 2, 3, 4], spare = [], endian = Some BigEndian, position = 0, lengthB = 3\<rparr>) * 2 ^ 2 \<le> unat maxAlloc \<and>
   checkCapacity \<lparr>raw = [1, 2, 3, 4], spare = [], endian = Some BigEndian, position = 0, lengthB = 3\<rparr> 13 =
     Some (Return \<lparr>raw = [1, 2, 3, 0, 0, 0, 0, 0, 0, 0, 0, 0, 0, 0, 0, 0], spare = [], endian = Some BigEndian, position = 0, lengthB = 3\<rparr>) \<and>
   checkCapacity_part000 \<lparr>raw = [1, 2, 3, 4], spare = [], endian = Some BigEndian, position = 0, lengthB = 3\<rparr> 13 =
     Some (Return \<lparr>raw = [1, 2, 3, 0, 0, 0, 0, 0, 0, 0, 0, 0, 0, 0, 0, 0], spare = [], endian = Some BigEndian, position = 0, lengthB = 3\<rparr>) \<and>
   (0 :: nat) < 47 \<and>
   length (raw \<lparr>raw = [1, 2, 3, 4], spare = [], endian = Some BigEndian, position = 0, lengthB = 3\<rparr>) * 2 ^ (47 - 1) < unat (281474976710657 :: uint) \<and>
   unat (281474976710657 :: uint) \<le> length (raw \<lparr>raw = [1, 2, 3, 4], spare = [], endian = Some BigEndian, position = 0, lengthB = 3\<rparr>) * 2 ^ 47 \<and>
   unat maxAlloc < length (raw \<lparr>raw = [1, 2, 3, 4], spare = [], endian = Some BigEndian, position = 0, lengthB = 3\<rparr>) * 2 ^ 47 \<and>
   length (raw \<lparr>raw = [1, 2, 3, 4], spare = [], endian = Some BigEndian, position = 0, lengthB = 3\<rparr>) * 2 ^ 47 < (2 :: nat) ^ 64 \<and>
   checkCapacity \<lparr>raw = [1, 2, 3, 4], spare = [], endian = Some BigEndian, position = 0, lengthB = 3\<rparr> 281474976710657 = Some Panic \<and>
   unat (2 :: uint) \<le> length (raw \<lparr>raw = [1, 2, 3, 4], spare = [], endian = Some BigEndian, position = 0, lengthB = 3\<rparr>) \<and>
   length (raw \<lparr>raw = [1, 2, 3, 4], spare = [], endian = Some BigEndian, position = 0, lengthB = 3\<rparr>) \<le> unat maxAlloc \<and>
   checkCapacity \<lparr>raw = [1, 2, 3, 4], spare = [], endian = Some BigEndian, position = 0, lengthB = 3\<rparr> 2 =
     Some (Return \<lparr>raw = [1, 2, 3, 4], spare = [], endian = Some BigEndian, position = 0, lengthB = 3\<rparr>) \<and>
   checkCapacity_part000 \<lparr>raw = [1, 2, 3, 4], spare = [], endian = Some BigEndian, position = 0, lengthB = 3\<rparr> 2 =
     Some (Return \<lparr>raw = [1, 2, 3, 0], spare = [], endian = Some BigEndian, position = 0, lengthB = 3\<rparr>)"
proof -
  let ?f = "\<lparr>raw = [], spare = [], endian = Some BigEndian, position = 0, lengthB = 0\<rparr>"
  let ?g = "\<lparr>raw = [1, 2, 3, 4], spare = [], endian = Some BigEndian, position = 0, lengthB = 3\<rparr>"
  have wf1: "wf_slice ?f"
    by (simp add: wf_slice_def unat_maxInt)
  have cp1: "cap_ok ?f"
    by (simp add: cap_ok_def)
  have l0: "length (raw ?f) = 0"
    by simp
  have m1: "(4 :: uint) \<le> maxAlloc"
    by (simp add: maxAlloc_def)
  have m2: "maxAlloc < (281474976710657 :: uint)"
    by (simp add: maxAlloc_def)
  have wf2: "wf_slice ?g"
    by (simp add: wf_slice_def unat_maxInt)
  have cp2: "cap_ok ?g"
    by (simp add: cap_ok_def)
  have lp: "0 < length (raw ?g)"
    by simp
  have k2: "(0 :: nat) < 2"
    by simp
  have h1: "length (raw ?g) * 2 ^ (2 - 1) < unat (13 :: uint)"
    by simp
  have h2: "unat (13 :: uint) \<le> length (raw ?g) * 2 ^ 2"
    by simp
  have h3: "length (raw ?g) * 2 ^ 2 \<le> unat maxAlloc"
    by (simp add: unat_maxAlloc)
  have k47: "(0 :: nat) < 47"
    by simp
  have g1: "length (raw ?g) * 2 ^ (47 - 1) < unat (281474976710657 :: uint)"
    by simp
  have g2: "unat (281474976710657 :: uint) \<le> length (raw ?g) * 2 ^ 47"
    by simp
  have g3: "unat maxAlloc < length (raw ?g) * 2 ^ 47"
    by (simp add: unat_maxAlloc)
  have g4: "length (raw ?g) * 2 ^ 47 < (2 :: nat) ^ 64"
    by simp
  have c1: "unat (2 :: uint) \<le> length (raw ?g)"
    by simp
  have c2: "length (raw ?g) \<le> unat maxAlloc"
    by (simp add: unat_maxAlloc)
  note T1 = C7_checkCapacity [OF wf1 cp1, where newCap = 4 and k = 0]
  note T2 = C7_checkCapacity [OF wf1 cp1, where newCap = 281474976710657 and k = 0]
  note T3 = C7_checkCapacity [OF wf2 cp2, where newCap = 13 and k = 2]
  note T4 = C7_checkCapacity [OF wf2 cp2, where newCap = 281474976710657 and k = 47]
  note T5 = C7_checkCapacity [OF wf2 cp2, where newCap = 2 and k = 0]
  have a1: "checkCapacity ?f 4 =
     Some (Return (?f\<lparr>raw := replicate (unat (4 :: uint)) 0, spare := []\<rparr>))"
    and a2: "checkCapacity_part000 ?f 4 =
     Some (Return (?f\<lparr>raw := replicate (unat (4 :: uint)) 0, spare := []\<rparr>))"
    using T1 l0 m1 by blast+
  have a3: "checkCapacity ?f 281474976710657 = Some Panic"
    using T2 l0 m2 by blast
  have b1: "checkCapacity ?g 13 =
     Some (Return (?g\<lparr>raw := take (unat (lengthB ?g)) (raw ?g) @
                       replicate (length (raw ?g) * 2 ^ 2 - unat (lengthB ?g)) 0,
                    spare := []\<rparr>))"
    and b2: "checkCapacity_part000 ?g 13 =
     Some (Return (?g\<lparr>raw := take (unat (lengthB ?g)) (raw ?g) @
                       replicate (length (raw ?g) * 2 ^ 2 - unat (lengthB ?g)) 0,
                    spare := []\<rparr>))"
    using T3 lp k2 h1 h2 h3 by blast+
  have b3: "checkCapacity ?g 281474976710657 = Some Panic"
    using T4 lp k47 g1 g2 g3 g4 by blast
  have c3: "checkCapacity ?g 2 = Some (Return ?g)"
    using T5 lp c1 by blast
  have c4: "checkCapacity_part000 ?g 2 =
     Some (Return (?g\<lparr>raw := take (unat (lengthB ?g)) (raw ?g) @
                       replicate (length (raw ?g) - unat (lengthB ?g)) 0,
                    spare := []\<rparr>))"
    using T5 lp c1 c2 by blast
  have r1: "?f\<lparr>raw := replicate (unat (4 :: uint)) 0, spare := []\<rparr> =
     \<lparr>raw = [0, 0, 0, 0], spare = [], endian = Some BigEndian, position = 0, lengthB = 0\<rparr>"
    by code_simp
  have r2: "?g\<lparr>raw := take (unat (lengthB ?g)) (raw ?g) @
                       replicate (length (raw ?g) * 2 ^ 2 - unat (lengthB ?g)) 0,
                    spare := []\<rparr> =
     \<lparr>raw = [1, 2, 3, 0, 0, 0, 0, 0, 0, 0, 0, 0, 0, 0, 0, 0], spare = [], endian = Some BigEndian, position = 0, lengthB = 3\<rparr>"
    by code_simp
  have r3: "?g\<lparr>raw := take (unat (lengthB ?g)) (raw ?g) @
                       replicate (length (raw ?g) - unat (lengthB ?g)) 0,
                    spare := []\<rparr> =
     \<lparr>raw = [1, 2, 3, 0], spare = [], endian = Some BigEndian, position = 0, lengthB = 3\<rparr>"
    by code_simp
  have a1': "checkCapacity ?f 4 =
     Some (Return \<lparr>raw = [0, 0, 0, 0], spare = [], endian = Some BigEndian, position = 0, lengthB = 0\<rparr>)"
    and a2': "checkCapacity_part000 ?f 4 =
     Some (Return \<lparr>raw = [0, 0, 0, 0], spare = [], endian = Some BigEndian, position = 0, lengthB = 0\<rparr>)"
    using a1 a2 by (simp_all only: r1)
  have b1': "checkCapacity ?g 13 =
     Some (Return \<lparr>raw = [1, 2, 3, 0, 0, 0, 0, 0, 0, 0, 0, 0, 0, 0, 0, 0], spare = [], endian = Some BigEndian, position = 0, lengthB = 3\<rparr>)"
    and b2': "checkCapacity_part000 ?g 13 =
     Some (Return \<lparr>raw = [1, 2, 3, 0, 0, 0, 0, 0, 0, 0, 0, 0, 0, 0, 0, 0], spare = [], endian = Some BigEndian, position = 0, lengthB = 3\<rparr>)"
    using b1 b2 by (simp_all only: r2)
  have c4': "checkCapacity_part000 ?g 2 =
     Some (Return \<lparr>raw = [1, 2, 3, 0], spare = [], endian = Some BigEndian, position = 0, lengthB = 3\<rparr>)"
    using c4 by (simp only: r3)
  show ?thesis
    by (intro conjI wf1 cp1 l0 m1 a1' a2' m2 a3 wf2 cp2 lp k2 h1 h2 h3 b1' b2' k47 g1 g2 g3 g4 b3
        c1 c2 c3 c4')
qed

text \<open>
  C7 as stated fails. On the empty buffer a request of \<open>2 ^ 48 + 1\<close> bytes panics in
  \<open>make\<close>. From capacity 1 a request of \<open>2 ^ 63 + 1\<close> bytes does not return: the
  capacity doubles up to \<open>2 ^ 63\<close>, wraps around to 0 and stays below the request. On
  the buffer with capacity 1, position 5 and length 6 that \<open>SetPosition(5)\<close> and a
  \<open>ReadBytes\<close> of one byte leave behind, a request of 7 bytes panics in the slice
  expression \<open>b.raw[:b.length]\<close>.
\<close>

theorem C7_counterexample:
  "checkCapacity \<lparr>raw = [], spare = [], endian = Some BigEndian, position = 0, lengthB = 0\<rparr> 281474976710657 = Some Panic \<and>
   checkCapacity \<lparr>raw = [0], spare = [], endian = Some BigEndian, position = 0, lengthB = 0\<rparr> 9223372036854775809 = None \<and>
   checkCapacity_part000 \<lparr>raw = [0], spare = [], endian = Some BigEndian, position = 0, lengthB = 0\<rparr> 9223372036854775809 = None \<and>
   checkCapacity \<lparr>raw = [7], spare = [], endian = Some BigEndian, position = 5, lengthB = 6\<rparr> 7 = Some Panic \<and>
   checkCapacity_part000 \<lparr>raw = [7], spare = [], endian = Some BigEndian, position = 5, lengthB = 6\<rparr> 7 = Some Panic"
proof -
  have big: "(9223372036854775808 :: uint) < 9223372036854775809" by simp
  have h2: "checkCapacity_loop 2 (9223372036854775809 :: uint) = None"
    using loop_hangs[OF big, of 62] by simp
  have one: "(1 :: uint) < 9223372036854775809" by simp
  have h1: "checkCapacity_loop 1 (9223372036854775809 :: uint) = None"
    using h2 one by (subst checkCapacity_loop.simps) simp
  have a: "checkCapacity \<lparr>raw = [], spare = [], endian = Some BigEndian, position = 0, lengthB = 0\<rparr> 281474976710657 = Some Panic"
    by (simp add: checkCapacity_def make_bytes_def maxAlloc_def bind_panic_def)
  have b: "checkCapacity \<lparr>raw = [0], spare = [], endian = Some BigEndian, position = 0, lengthB = 0\<rparr> 9223372036854775809 = None"
    using h2 by (simp add: checkCapacity_def)
  have c: "checkCapacity_part000 \<lparr>raw = [0], spare = [], endian = Some BigEndian, position = 0, lengthB = 0\<rparr> 9223372036854775809 = None"
    using h1 by (simp add: checkCapacity_part000_def)
  have d: "checkCapacity \<lparr>raw = [7], spare = [], endian = Some BigEndian, position = 5, lengthB = 6\<rparr> 7 = Some Panic"
    by code_simp
  have e: "checkCapacity_part000 \<lparr>raw = [7], spare = [], endian = Some BigEndian, position = 5, lengthB = 6\<rparr> 7 = Some Panic"
    by code_simp
  from a b c d e show ?thesis by simp
qed

section \<open>The relations are kept\<close>

lemma movePointer_both:
  "movePointer b w (pointerPosition OR pointerLength) =
     b\<lparr>position := position b + w,
       lengthB := (if lengthB b < position b + w then position b + w else lengthB b)\<rparr>"
  by (simp add: movePointer_def pointerPosition_def pointerLength_def Let_def)

lemma movePointer_pos:
  "movePointer b w pointerPosition = b\<lparr>position := position b + w\<rparr>"
  by (simp add: movePointer_def pointerPosition_def pointerLength_def Let_def)

lemma movePointer_len:
  "movePointer b w pointerLength =
     (if lengthB b < position b + w then b\<lparr>lengthB := position b + w\<rparr> else b)"
  by (simp add: movePointer_def pointerPosition_def pointerLength_def Let_def)

lemma store_fields:
  "position (store b lo bs) = position b" "lengthB (store b lo bs) = lengthB b"
  "endian (store b lo bs) = endian b"
  by (simp_all add: store_def Let_def)

lemma store_lengths:
  assumes "lo + length bs \<le> length (raw b) + length (spare b)"
  shows "length (raw (store b lo bs)) = length (raw b)"
    and "length (spare (store b lo bs)) = length (spare b)"
  using assms by (auto simp: store_def Let_def)

lemma index_set_shape: "index_set b i v = Return b' \<Longrightarrow> same_shape b b' \<and> unat i < length (raw b)"
  by (auto simp: index_set_def same_shape_def split: if_splits)

lemma length_bytes_be: "length (bytes_be n v) = n"
  by (induction n) simp_all

lemma length_encode_order: "length (encode_order e n v) = n"
  by (cases e) (simp_all add: encode_order_def length_bytes_be)

lemma put_uint_shape:
  "put_uint b lo n v = Return b' \<Longrightarrow> same_shape b b'"
  by (auto simp: put_uint_def same_shape_def store_fields store_lengths length_encode_order
      split: if_splits option.splits)

lemma copy_from_shape: "copy_from b lo src = Return b' \<Longrightarrow> same_shape b b'"
  by (auto simp: copy_from_def same_shape_def store_fields store_lengths split: if_splits)

lemma copy_range_shape: "copy_range b lo hi src = Return b' \<Longrightarrow> same_shape b b'"
  by (auto simp: copy_range_def same_shape_def store_fields store_lengths split: if_splits)

lemma bind_res_Return:
  "bind_res m f = Some (Return y) \<Longrightarrow> \<exists>x. m = Some (Return x) \<and> f x = Some (Return y)"
  by (auto simp: bind_res_def split: option.splits res.splits)

lemma bind_panic_Return:
  "bind_panic m f = Return y \<Longrightarrow> \<exists>x. m = Return x \<and> f x = Return y"
  by (auto simp: bind_panic_def split: res.splits)

lemma written_ok:
  assumes b1: "wf_slice b1" "cap_ok b1" "unat (position b1 + w) \<le> length (raw b1)"
    and sh: "same_shape b1 b2"
  shows "buffer_ok (movePointer b2 w (pointerPosition OR pointerLength))"
  using assms
  by (auto simp: movePointer_both buffer_ok_def wf_slice_def cap_ok_def pos_ok_def same_shape_def)

lemma WriteByte_ok:
  assumes "wf_slice b" "cap_ok b" "WriteByte b v = Some (Return b')"
  shows "buffer_ok b'"
proof -
  from assms(3) obtain b1 b2 where
    c: "checkCapacity b (position b + byteWide1) = Some (Return b1)" and
    s: "index_set b1 (position b1) v = Return b2" and
    m: "b' = movePointer b2 byteWide1 (pointerPosition OR pointerLength)"
    unfolding WriteByte_def by (fastforce dest!: bind_res_Return bind_panic_Return)
  from checkCapacity_Return[OF assms(1,2) c] index_set_shape[OF s] m
  show ?thesis by (auto intro!: written_ok)
qed


lemma same_shape_trans: "same_shape a b \<Longrightarrow> same_shape b c \<Longrightarrow> same_shape a c"
  by (simp add: same_shape_def)

lemma same_shape_refl: "same_shape a a"
  by (simp add: same_shape_def)

lemma WriteBoolean_ok:
  assumes "wf_slice b" "cap_ok b" "WriteBoolean b v = Some (Return b')"
  shows "buffer_ok b'"
proof -
  from assms(3) obtain b1 b2 b3 where
    c: "checkCapacity b (position b + byteWide1) = Some (Return b1)" and
    s: "index_set b1 (position b1) 0 = Return b2" and
    t: "(if v then index_set b2 (position b2) 1 else Return b2) = Return b3" and
    m: "b' = movePointer b3 byteWide1 (pointerPosition OR pointerLength)"
    unfolding WriteBoolean_def by (fastforce dest!: bind_res_Return bind_panic_Return)
  have "same_shape b2 b3" using t index_set_shape[of b2 "position b2" 1 b3]
    by (cases v) (simp_all add: same_shape_refl)
  with index_set_shape[OF s] have "same_shape b1 b3" by (blast intro: same_shape_trans)
  with checkCapacity_Return[OF assms(1,2) c] index_set_shape[OF s] m
  show ?thesis by (auto intro!: written_ok)
qed

lemma put_uint_written:
  assumes "wf_slice b" "cap_ok b"
    and c: "checkCapacity b (position b + w) = Some (Return b1)"
    and s: "put_uint b1 (position b1) n v = Return b2"
  shows "buffer_ok (movePointer b2 w (pointerPosition OR pointerLength))"
  using checkCapacity_Return[OF assms(1,2) c] put_uint_shape[OF s]
  by (auto intro!: written_ok)

lemma WriteDouble_ok:
  assumes "wf_slice b" "cap_ok b" "WriteDouble b v = Some (Return b')"
  shows "buffer_ok b'"
  using assms(3) unfolding WriteDouble_def
  by (fastforce dest!: bind_res_Return bind_panic_Return intro: put_uint_written[OF assms(1,2)])

lemma WriteFloat_ok:
  assumes "wf_slice b" "cap_ok b" "WriteFloat b v = Some (Return b')"
  shows "buffer_ok b'"
  using assms(3) unfolding WriteFloat_def
  by (fastforce dest!: bind_res_Return bind_panic_Return intro: put_uint_written[OF assms(1,2)])

lemma WriteInt_ok:
  assumes "wf_slice b" "cap_ok b" "WriteInt b v = Some (Return b')"
  shows "buffer_ok b'"
  using assms(3) unfolding WriteInt_def
  by (fastforce dest!: bind_res_Return bind_panic_Return intro: put_uint_written[OF assms(1,2)])

lemma WriteShort_ok:
  assumes "wf_slice b" "cap_ok b" "WriteShort b v = Some (Return b')"
  shows "buffer_ok b'"
  using assms(3) unfolding WriteShort_def
  by (fastforce dest!: bind_res_Return bind_panic_Return intro: put_uint_written[OF assms(1,2)])

lemma WriteUnsignedInt_ok:
  assumes "wf_slice b" "cap_ok b" "WriteUnsignedInt b v = Some (Return b')"
  shows "buffer_ok b'"
  using assms(3) unfolding WriteUnsignedInt_def
  by (fastforce dest!: bind_res_Return bind_panic_Return intro: put_uint_written[OF assms(1,2)])

lemma copy_from_written:
  assumes "wf_slice b" "cap_ok b"
    and c: "checkCapacity b (position b + w) = Some (Return b1)"
    and s: "copy_from b1 (position b1) bs = Return b2"
  shows "buffer_ok (movePointer b2 w (pointerPosition OR pointerLength))"
  using checkCapacity_Return[OF assms(1,2) c] copy_from_shape[OF s]
  by (auto intro!: written_ok)

lemma WriteUTFBytes_ok:
  assumes "wf_slice b" "cap_ok b" "WriteUTFBytes b bs = Some (Return b')"
  shows "buffer_ok b'"
  using assms(3) unfolding WriteUTFBytes_def Let_def
  by (fastforce dest!: bind_res_Return bind_panic_Return intro: copy_from_written[OF assms(1,2)])

lemma WriteUTF_eq:
  "WriteUTF b bs =
     bind_res (WriteShort b (ucast (of_nat (length bs) :: uint))) (\<lambda>b0. WriteUTFBytes b0 bs)"
  by (simp add: WriteUTF_def WriteUTFBytes_def Let_def)

lemma WriteUTF_ok:
  assumes "wf_slice b" "cap_ok b" "WriteUTF b bs = Some (Return b')"
  shows "buffer_ok b'"
proof -
  from assms(3) obtain b0 where
    w: "WriteShort b (ucast (of_nat (length bs) :: uint)) = Some (Return b0)" and
    r: "WriteUTFBytes b0 bs = Some (Return b')"
    using WriteUTF_eq[of b bs] by (auto dest!: bind_res_Return)
  from WriteShort_ok[OF assms(1,2) w] have "wf_slice b0" "cap_ok b0"
    by (simp_all add: buffer_ok_def)
  then show ?thesis using r by (rule WriteUTFBytes_ok)
qed

lemma SetEndian_ok: "buffer_ok b \<Longrightarrow> buffer_ok (SetEndian b e)"
  by (simp add: SetEndian_def buffer_ok_def wf_slice_def cap_ok_def pos_ok_def)

lemma SetPosition_eq: "SetPosition b n = b\<lparr>position := n\<rparr>"
  by (simp add: SetPosition_def)

lemma SetLength_ok:
  assumes "wf_slice b" "cap_ok b" "pos_ok b" "SetLength b n = Some (Return b')"
  shows "buffer_ok b'"
proof (cases "lengthB b = n")
  case True
  then show ?thesis using assms by (simp add: SetLength_def buffer_ok_def)
next
  case False
  show ?thesis
  proof (cases "lengthB b < n")
    case True
    with False assms(4) obtain b1 where
      c: "checkCapacity b n = Some (Return b1)" and
      b': "b' = (if position b1 > n then b1\<lparr>lengthB := n, position := n\<rparr> else b1\<lparr>lengthB := n\<rparr>)"
      by (auto simp: SetLength_def SetPosition_eq Let_def dest!: bind_res_Return)
    from checkCapacity_Return[OF assms(1,2) c] b' show ?thesis
      by (auto simp: buffer_ok_def wf_slice_def cap_ok_def pos_ok_def not_less)
  next
    case lower: False
    with False assms(4) have
      b': "b' = (if position b > n then b\<lparr>lengthB := n, position := n\<rparr> else b\<lparr>lengthB := n\<rparr>)"
      by (auto simp: SetLength_def SetPosition_eq Let_def bind_res_def)
    have "unat n \<le> unat (lengthB b)" using lower by (simp add: word_less_nat_alt)
    with assms(1,2) b' show ?thesis
      by (auto simp: buffer_ok_def wf_slice_def cap_ok_def pos_ok_def not_less)
  qed
qed

lemma Clear_ok:
  assumes "wf_slice b" "cap_ok b" "Clear b = Some (Return b')"
  shows "buffer_ok b'"
proof (cases "lengthB b = 0")
  case True
  then show ?thesis using assms
    by (auto simp: Clear_def SetLength_def SetPosition_eq buffer_ok_def wf_slice_def cap_ok_def pos_ok_def)
next
  case False
  then show ?thesis using assms
    by (auto simp: Clear_def SetLength_def SetPosition_eq bind_res_def Let_def
        buffer_ok_def wf_slice_def cap_ok_def pos_ok_def)
qed



lemma avail_enough:
  assumes "pos_ok b" "checkLength b w = None"
  shows "position b + w \<le> lengthB b"
proof (cases "position b < lengthB b")
  case True
  with assms(2) have "w \<le> lengthB b - position b"
    by (simp add: checkLength_def BytesAvailable_def not_less split: if_splits)
  with True show ?thesis by unat_arith
next
  case False
  with assms(2) have "w = 0"
    by (simp add: checkLength_def BytesAvailable_def not_less split: if_splits)
  with assms(1) show ?thesis by (simp add: pos_ok_def)
qed

lemma read_advance_ok:
  "buffer_ok b \<Longrightarrow> checkLength b w = None \<Longrightarrow> buffer_ok (movePointer b w pointerPosition)"
  using avail_enough[of b w]
  by (simp add: buffer_ok_def movePointer_pos wf_slice_def cap_ok_def pos_ok_def)

lemma ReadBoolean_ok: "buffer_ok b \<Longrightarrow> ReadBoolean b = Return (r, b') \<Longrightarrow> buffer_ok b'"
  by (auto simp: ReadBoolean_def split: option.splits dest!: bind_panic_Return intro: read_advance_ok)

lemma ReadByte_ok: "buffer_ok b \<Longrightarrow> ReadByte b = Return (r, b') \<Longrightarrow> buffer_ok b'"
  by (auto simp: ReadByte_def split: option.splits dest!: bind_panic_Return intro: read_advance_ok)

lemma ReadDouble_ok: "buffer_ok b \<Longrightarrow> ReadDouble b = Return (r, b') \<Longrightarrow> buffer_ok b'"
  by (auto simp: ReadDouble_def split: option.splits dest!: bind_panic_Return intro: read_advance_ok)

lemma ReadFloat_ok: "buffer_ok b \<Longrightarrow> ReadFloat b = Return (r, b') \<Longrightarrow> buffer_ok b'"
  by (auto simp: ReadFloat_def split: option.splits dest!: bind_panic_Return intro: read_advance_ok)

lemma ReadInt_ok: "buffer_ok b \<Longrightarrow> ReadInt b = Return (r, b') \<Longrightarrow> buffer_ok b'"
  by (auto simp: ReadInt_def split: option.splits dest!: bind_panic_Return intro: read_advance_ok)

lemma ReadShort_ok: "buffer_ok b \<Longrightarrow> ReadShort b = Return (r, b') \<Longrightarrow> buffer_ok b'"
  by (auto simp: ReadShort_def split: option.splits dest!: bind_panic_Return intro: read_advance_ok)

lemma ReadUnsignedByte_ok: "buffer_ok b \<Longrightarrow> ReadUnsignedByte b = Return (r, b') \<Longrightarrow> buffer_ok b'"
  by (auto simp: ReadUnsignedByte_def split: option.splits dest!: bind_panic_Return intro: read_advance_ok)

lemma ReadUnsignedInt_ok: "buffer_ok b \<Longrightarrow> ReadUnsignedInt b = Return (r, b') \<Longrightarrow> buffer_ok b'"
  by (auto simp: ReadUnsignedInt_def split: option.splits dest!: bind_panic_Return intro: read_advance_ok)

lemma ReadUnsignedShort_ok: "buffer_ok b \<Longrightarrow> ReadUnsignedShort b = Return (r, b') \<Longrightarrow> buffer_ok b'"
  by (auto simp: ReadUnsignedShort_def split: option.splits dest!: bind_panic_Return intro: read_advance_ok)

lemma ReadUTFBytes_ok: "buffer_ok b \<Longrightarrow> ReadUTFBytes b n = Return (r, b') \<Longrightarrow> buffer_ok b'"
  by (auto simp: ReadUTFBytes_def split: option.splits dest!: bind_panic_Return intro: read_advance_ok)

lemma ReadUTF_ok:
  assumes "buffer_ok b" "ReadUTF b = Return (r, b')"
  shows "buffer_ok b'"
proof -
  from assms(2) obtain n e b1 where
    s: "ReadUnsignedShort b = Return ((n, e), b1)" and u: "ReadUTFBytes b1 n = Return (r, b')"
    unfolding ReadUTF_def by (auto dest!: bind_panic_Return)
  from ReadUnsignedShort_ok[OF assms(1) s] u show ?thesis by (rule ReadUTFBytes_ok)
qed


lemma checkCapacity_then_copy:
  assumes "wf_slice b" "cap_ok b"
    and c: "checkCapacity b n = Some (Return b1)"
    and s: "same_shape b1 b2"
  shows "wf_slice b2" "unat (lengthB b) \<le> length (raw b2)" "unat n \<le> length (raw b2)"
    "position b2 = position b" "lengthB b2 = lengthB b"
proof -
  from checkCapacity_Return[OF assms(1,2) c]
  have f: "unat n \<le> length (raw b1)" "position b1 = position b" "lengthB b1 = lengthB b"
    "wf_slice b1" "cap_ok b1" by simp_all
  from s have g: "length (raw b2) = length (raw b1)" "length (spare b2) = length (spare b1)"
    "position b2 = position b1" "lengthB b2 = lengthB b1" by (simp_all add: same_shape_def)
  show "wf_slice b2" using f(4) g(1,2) by (simp add: wf_slice_def)
  show "unat (lengthB b) \<le> length (raw b2)" using f(5) f(3) g(1) by (simp add: cap_ok_def)
  show "unat n \<le> length (raw b2)" using f(1) g(1) by simp
  show "position b2 = position b" using f(2) g(3) by simp
  show "lengthB b2 = lengthB b" using f(3) g(4) by simp
qed

lemma WriteBytes_ok:
  assumes "wf_slice b" "cap_ok b" "WriteBytes b bytes offset len = Some (Return b')"
  shows "wf_slice b' \<and> cap_ok b'"
proof -
  from assms(3) obtain w b1 src b2 where
    c: "checkCapacity b (position b + w) = Some (Return b1)" and
    s: "copy_range b1 (position b1) (position b1 + w) src = Return b2" and
    m: "b' = movePointer b2 w pointerPosition"
    unfolding WriteBytes_def Let_def by (fastforce dest!: bind_res_Return bind_panic_Return)
  from checkCapacity_then_copy[OF assms(1,2) c copy_range_shape[OF s]] m show ?thesis
    by (simp add: movePointer_pos wf_slice_def cap_ok_def)
qed

lemma word_delta_le:
  fixes p l x :: uint
  assumes "p \<le> l" "l < x"
  shows "p + (x - l) \<le> x"
proof -
  have s: "unat (x - l) = unat x - unat l" using assms(2) by (simp add: unat_sub)
  have lx: "unat l < unat x" using assms(2) by (simp add: word_less_nat_alt)
  have pl: "unat p \<le> unat l" using assms(1) by (simp add: word_le_nat_alt)
  have "unat p + unat (x - l) < 2 ^ LENGTH(64)"
    using s lx pl unsigned_less[of x, where 'a=nat] by simp
  then have "unat (p + (x - l)) = unat p + unat (x - l)" by (rule unat_add_lem[THEN iffD1])
  then show ?thesis using s lx pl by (simp add: word_le_nat_alt)
qed

lemma ReadBytes_copy_ok:
  assumes src: "buffer_ok b" and dst: "buffer_ok bytes"
    and avail: "checkLength b len = None"
    and ret: "ReadBytes_copy b bytes offset len = Some (Return (e, b', bytes'))"
  shows "buffer_ok b' \<and> buffer_ok bytes'"
proof (cases "MaxUint32 < offset + len")
  case True
  with ret src dst show ?thesis by (simp add: ReadBytes_copy_def)
next
  case False
  with ret obtain bytes1 data bytes2 where
    c: "checkCapacity bytes (offset + len) = Some (Return bytes1)" and
    s: "copy_range bytes1 offset (offset + len) data = Return bytes2" and
    b': "b' = movePointer b len pointerPosition" and
    d': "bytes' = (if offset + len > lengthB bytes2
                   then movePointer bytes2 (offset + len - lengthB bytes2) pointerLength
                   else bytes2)"
    unfolding ReadBytes_copy_def Let_def
    by (fastforce dest!: bind_res_Return bind_panic_Return)
  have wfd: "wf_slice bytes" "cap_ok bytes" "pos_ok bytes" using dst by (simp_all add: buffer_ok_def)
  note cc = checkCapacity_then_copy[OF wfd(1,2) c copy_range_shape[OF s]]
  have ok2: "buffer_ok bytes2" using cc wfd(3)
    by (simp add: buffer_ok_def cap_ok_def pos_ok_def)
  have "buffer_ok bytes'"
  proof (cases "offset + len > lengthB bytes2")
    case False
    with d' ok2 show ?thesis by simp
  next
    case True
    let ?np = "position bytes2 + (offset + len - lengthB bytes2)"
    have p: "position bytes2 \<le> lengthB bytes2" using ok2 by (simp add: buffer_ok_def pos_ok_def)
    have le: "?np \<le> offset + len" using p True by (rule word_delta_le)
    have "unat ?np \<le> unat (offset + len)" using le by (simp add: word_le_nat_alt)
    then have "unat ?np \<le> length (raw bytes2)" using cc(3) by linarith
    moreover have "pos_ok (bytes2\<lparr>lengthB := ?np\<rparr>)" if "lengthB bytes2 < ?np"
      using that p by (simp add: pos_ok_def)
    ultimately show ?thesis using True d' ok2
      by (simp add: movePointer_len buffer_ok_def wf_slice_def cap_ok_def)
  qed
  moreover have "buffer_ok b'" using b' src avail by (simp add: read_advance_ok)
  ultimately show ?thesis by simp
qed

lemma checkLength_avail: "checkLength b (BytesAvailable b) = None"
  by (simp add: checkLength_def)

lemma ReadBytes_ok:
  assumes src: "buffer_ok b" and dst: "buffer_ok bytes"
    and ret: "ReadBytes b bytes offset len = Some (Return (e, b', bytes'))"
  shows "buffer_ok b' \<and> buffer_ok bytes'"
proof (cases "0 = len")
  case True
  show ?thesis
  proof (cases "0 = BytesAvailable b")
    case z: True
    with True ret src dst show ?thesis by (simp add: ReadBytes_def)
  next
    case False
    with True ret have "ReadBytes_copy b bytes offset (BytesAvailable b) = Some (Return (e, b', bytes'))"
      by (simp add: ReadBytes_def Let_def)
    from ReadBytes_copy_ok[OF src dst checkLength_avail this] show ?thesis .
  qed
next
  case False
  show ?thesis
  proof (cases "checkLength b len")
    case None
    with False ret have "ReadBytes_copy b bytes offset len = Some (Return (e, b', bytes'))"
      by (simp add: ReadBytes_def)
    from ReadBytes_copy_ok[OF src dst None this] show ?thesis .
  next
    case (Some err)
    with False ret src dst show ?thesis by (simp add: ReadBytes_def)
  qed
qed

lemma NewByteArray_eq:
  "NewByteArray None =
     Some (Return \<lparr>raw = [], spare = [], endian = Some BigEndian, position = 0, lengthB = 0\<rparr>)"
  "NewByteArray (Some (elems, rest)) =
     Some (Return \<lparr>raw = elems, spare = rest, endian = Some BigEndian, position = 0, lengthB = 0\<rparr>)"
  by (simp_all add: NewByteArray_def SetLength_def SetPosition_def SetEndian_def
        EndianBig_def EndianLittle_def)

lemma NewByteArray_ok:
  "(case arg of None \<Rightarrow> True | Some (elems, rest) \<Rightarrow> length elems + length rest \<le> unat maxInt) \<Longrightarrow>
   NewByteArray arg = Some (Return b0) \<Longrightarrow> buffer_ok b0"
  by (cases arg) (auto simp: NewByteArray_eq buffer_ok_def wf_slice_def cap_ok_def pos_ok_def)

lemma SetPosition_facts:
  assumes "buffer_ok b"
  shows "wf_slice (SetPosition b p) \<and> cap_ok (SetPosition b p) \<and>
         position (SetPosition b p) = p \<and> lengthB (SetPosition b p) = lengthB b \<and>
         raw (SetPosition b p) = raw b \<and> pos_ok (SetPosition b p) = (p \<le> lengthB b)"
  using assms by (simp add: SetPosition_eq buffer_ok_def wf_slice_def cap_ok_def pos_ok_def)


text \<open>
  C1, as the code has it. A buffer that \<open>NewByteArray\<close> returns satisfies
  \<open>0 \<le> position \<le> length \<le> capacity\<close>, and when the relation holds before a public
  operation that returns, it holds after it, for every operation but two: \<open>SetPosition(p)\<close>
  sets the position to \<open>p\<close> without looking at the length, so that afterwards
  \<open>length \<le> capacity\<close> still holds and \<open>position \<le> length\<close> holds exactly when
  \<open>p \<le> length\<close>; and of \<open>WriteBytes\<close> only \<open>length \<le> capacity\<close> is stated.
  \<open>ReadBytes\<close> keeps the relation on both buffers when both satisfy it before the call.
  (The accessors \<open>GetEndian\<close>, \<open>GetLength\<close>, \<open>GetPosition\<close> and \<open>BytesAvailable\<close>
  do not change the buffer.)
\<close>

theorem C1_relations_kept:
  assumes "buffer_ok b"
  shows
  "(\<forall>b0. (case arg of None \<Rightarrow> True
               | Some (elems, rest) \<Rightarrow> length elems + length rest \<le> unat maxInt) \<and>
         NewByteArray arg = Some (Return b0) \<longrightarrow> buffer_ok b0) \<and>
   buffer_ok (SetEndian b e) \<and>
   (\<forall>b'. SetLength b n = Some (Return b') \<longrightarrow> buffer_ok b') \<and>
   (\<forall>b'. Clear b = Some (Return b') \<longrightarrow> buffer_ok b') \<and>
   (\<forall>r b'. ReadBoolean b = Return (r, b') \<longrightarrow> buffer_ok b') \<and>
   (\<forall>r b'. ReadByte b = Return (r, b') \<longrightarrow> buffer_ok b') \<and>
   (\<forall>r b'. ReadDouble b = Return (r, b') \<longrightarrow> buffer_ok b') \<and>
   (\<forall>r b'. ReadFloat b = Return (r, b') \<longrightarrow> buffer_ok b') \<and>
   (\<forall>r b'. ReadInt b = Return (r, b') \<longrightarrow> buffer_ok b') \<and>
   (\<forall>r b'. ReadShort b = Return (r, b') \<longrightarrow> buffer_ok b') \<and>
   (\<forall>r b'. ReadUnsignedByte b = Return (r, b') \<longrightarrow> buffer_ok b') \<and>
   (\<forall>r b'. ReadUnsignedInt b = Return (r, b') \<longrightarrow> buffer_ok b') \<and>
   (\<forall>r b'. ReadUnsignedShort b = Return (r, b') \<longrightarrow> buffer_ok b') \<and>
   (\<forall>r b'. ReadUTFBytes b m = Return (r, b') \<longrightarrow> buffer_ok b') \<and>
   (\<forall>r b'. ReadUTF b = Return (r, b') \<longrightarrow> buffer_ok b') \<and>
   (\<forall>err b' d'. buffer_ok d \<and> ReadBytes b d offset len = Some (Return (err, b', d')) \<longrightarrow>
       buffer_ok b' \<and> buffer_ok d') \<and>
   (\<forall>b'. WriteBoolean b v1 = Some (Return b') \<longrightarrow> buffer_ok b') \<and>
   (\<forall>b'. WriteByte b v2 = Some (Return b') \<longrightarrow> buffer_ok b') \<and>
   (\<forall>b'. WriteDouble b v3 = Some (Return b') \<longrightarrow> buffer_ok b') \<and>
   (\<forall>b'. WriteFloat b v4 = Some (Return b') \<longrightarrow> buffer_ok b') \<and>
   (\<forall>b'. WriteInt b v5 = Some (Return b') \<longrightarrow> buffer_ok b') \<and>
   (\<forall>b'. WriteShort b v6 = Some (Return b') \<longrightarrow> buffer_ok b') \<and>
   (\<forall>b'. WriteUnsignedInt b v7 = Some (Return b') \<longrightarrow> buffer_ok b') \<and>
   (\<forall>b'. WriteUTFBytes b s1 = Some (Return b') \<longrightarrow> buffer_ok b') \<and>
   (\<forall>b'. WriteUTF b s2 = Some (Return b') \<longrightarrow> buffer_ok b') \<and>
   (\<forall>b'. WriteBytes b src offset' len' = Some (Return b') \<longrightarrow> wf_slice b' \<and> cap_ok b') \<and>
   wf_slice (SetPosition b p) \<and> cap_ok (SetPosition b p) \<and>
   position (SetPosition b p) = p \<and> lengthB (SetPosition b p) = lengthB b \<and>
   raw (SetPosition b p) = raw b \<and> pos_ok (SetPosition b p) = (p \<le> lengthB b)"
proof -
  have w: "wf_slice b" "cap_ok b" "pos_ok b" using assms by (simp_all add: buffer_ok_def)
  show ?thesis
    apply (intro conjI allI impI)
    subgoal by (blast intro: NewByteArray_ok)
    subgoal by (rule SetEndian_ok[OF assms])
    subgoal by (erule SetLength_ok[OF w])
    subgoal by (erule Clear_ok[OF w(1,2)])
    subgoal by (erule ReadBoolean_ok[OF assms])
    subgoal by (erule ReadByte_ok[OF assms])
    subgoal by (erule ReadDouble_ok[OF assms])
    subgoal by (erule ReadFloat_ok[OF assms])
    subgoal by (erule ReadInt_ok[OF assms])
    subgoal by (erule ReadShort_ok[OF assms])
    subgoal by (erule ReadUnsignedByte_ok[OF assms])
    subgoal by (erule ReadUnsignedInt_ok[OF assms])
    subgoal by (erule ReadUnsignedShort_ok[OF assms])
    subgoal by (erule ReadUTFBytes_ok[OF assms])
    subgoal by (erule ReadUTF_ok[OF assms])
    subgoal by (blast dest: ReadBytes_ok[OF assms])
    subgoal by (blast dest: ReadBytes_ok[OF assms])
    subgoal by (erule WriteBoolean_ok[OF w(1,2)])
    subgoal by (erule WriteByte_ok[OF w(1,2)])
    subgoal by (erule WriteDouble_ok[OF w(1,2)])
    subgoal by (erule WriteFloat_ok[OF w(1,2)])
    subgoal by (erule WriteInt_ok[OF w(1,2)])
    subgoal by (erule WriteShort_ok[OF w(1,2)])
    subgoal by (erule WriteUnsignedInt_ok[OF w(1,2)])
    subgoal by (erule WriteUTFBytes_ok[OF w(1,2)])
    subgoal by (erule WriteUTF_ok[OF w(1,2)])
    subgoal by (blast dest: WriteBytes_ok[OF w(1,2)])
    subgoal by (blast dest: WriteBytes_ok[OF w(1,2)])
    subgoal using SetPosition_facts[OF assms, of p] by blast
    subgoal using SetPosition_facts[OF assms, of p] by blast
    subgoal using SetPosition_facts[OF assms, of p] by blast
    subgoal using SetPosition_facts[OF assms, of p] by blast
    subgoal using SetPosition_facts[OF assms, of p] by blast
    subgoal using SetPosition_facts[OF assms, of p] by blast
    done
qed

theorem C1_relations_kept_witness:
  "buffer_ok \<lparr>raw = [0, 2, 65, 66], spare = [], endian = Some BigEndian, position = 0, lengthB = 4\<rparr> \<and>
   buffer_ok \<lparr>raw = [9, 9, 9, 9], spare = [], endian = Some BigEndian, position = 1, lengthB = 2\<rparr> \<and>
   NewByteArray None = Some (Return \<lparr>raw = [], spare = [], endian = Some BigEndian, position = 0, lengthB = 0\<rparr>) \<and>
   buffer_ok \<lparr>raw = [], spare = [], endian = Some BigEndian, position = 0, lengthB = 0\<rparr> \<and>
   buffer_ok (SetEndian \<lparr>raw = [0, 2, 65, 66], spare = [], endian = Some BigEndian, position = 0, lengthB = 4\<rparr> EndianLittle) \<and>
   SetLength \<lparr>raw = [0, 2, 65, 66], spare = [], endian = Some BigEndian, position = 0, lengthB = 4\<rparr> 2 =
     Some (Return \<lparr>raw = [0, 2, 65, 66], spare = [], endian = Some BigEndian, position = 0, lengthB = 2\<rparr>) \<and>
   buffer_ok \<lparr>raw = [0, 2, 65, 66], spare = [], endian = Some BigEndian, position = 0, lengthB = 2\<rparr> \<and>
   Clear \<lparr>raw = [0, 2, 65, 66], spare = [], endian = Some BigEndian, position = 0, lengthB = 4\<rparr> =
     Some (Return \<lparr>raw = [0, 2, 65, 66], spare = [], endian = Some BigEndian, position = 0, lengthB = 0\<rparr>) \<and>
   buffer_ok \<lparr>raw = [0, 2, 65, 66], spare = [], endian = Some BigEndian, position = 0, lengthB = 0\<rparr> \<and>
   ReadBoolean \<lparr>raw = [0, 2, 65, 66], spare = [], endian = Some BigEndian, position = 0, lengthB = 4\<rparr> =
     Return ((False, None), \<lparr>raw = [0, 2, 65, 66], spare = [], endian = Some BigEndian, position = 1, lengthB = 4\<rparr>) \<and>
   buffer_ok \<lparr>raw = [0, 2, 65, 66], spare = [], endian = Some BigEndian, position = 1, lengthB = 4\<rparr> \<and>
   ReadByte \<lparr>raw = [0, 2, 65, 66], spare = [], endian = Some BigEndian, position = 0, lengthB = 4\<rparr> =
     Return ((0, None), \<lparr>raw = [0, 2, 65, 66], spare = [], endian = Some BigEndian, position = 1, lengthB = 4\<rparr>) \<and>
   buffer_ok \<lparr>raw = [0, 2, 65, 66], spare = [], endian = Some BigEndian, position = 1, lengthB = 4\<rparr> \<and>
   ReadDouble \<lparr>raw = [0, 2, 65, 66], spare = [], endian = Some BigEndian, position = 0, lengthB = 4\<rparr> =
     Return ((0, Some ErrorEOF), \<lparr>raw = [0, 2, 65, 66], spare = [], endian = Some BigEndian, position = 0, lengthB = 4\<rparr>) \<and>
   buffer_ok \<lparr>raw = [0, 2, 65, 66], spare = [], endian = Some BigEndian, position = 0, lengthB = 4\<rparr> \<and>
   ReadFloat \<lparr>raw = [0, 2, 65, 66], spare = [], endian = Some BigEndian, position = 0, lengthB = 4\<rparr> =
     Return ((147778, None), \<lparr>raw = [0, 2, 65, 66], spare = [], endian = Some BigEndian, position = 4, lengthB = 4\<rparr>) \<and>
   buffer_ok \<lparr>raw = [0, 2, 65, 66], spare = [], endian = Some BigEndian, position = 4, lengthB = 4\<rparr> \<and>
   ReadInt \<lparr>raw = [0, 2, 65, 66], spare = [], endian = Some BigEndian, position = 0, lengthB = 4\<rparr> =
     Return ((147778, None), \<lparr>raw = [0, 2, 65, 66], spare = [], endian = Some BigEndian, position = 4, lengthB = 4\<rparr>) \<and>
   buffer_ok \<lparr>raw = [0, 2, 65, 66], spare = [], endian = Some BigEndian, position = 4, lengthB = 4\<rparr> \<and>
   ReadShort \<lparr>raw = [0, 2, 65, 66], spare = [], endian = Some BigEndian, position = 0, lengthB = 4\<rparr> =
     Return ((2, None), \<lparr>raw = [0, 2, 65, 66], spare = [], endian = Some BigEndian, position = 2, lengthB = 4\<rparr>) \<and>
   buffer_ok \<lparr>raw = [0, 2, 65, 66], spare = [], endian = Some BigEndian, position = 2, lengthB = 4\<rparr> \<and>
   ReadUnsignedByte \<lparr>raw = [0, 2, 65, 66], spare = [], endian = Some BigEndian, position = 0, lengthB = 4\<rparr> =
     Return ((0, None), \<lparr>raw = [0, 2, 65, 66], spare = [], endian = Some BigEndian, position = 1, lengthB = 4\<rparr>) \<and>
   buffer_ok \<lparr>raw = [0, 2, 65, 66], spare = [], endian = Some BigEndian, position = 1, lengthB = 4\<rparr> \<and>
   ReadUnsignedInt \<lparr>raw = [0, 2, 65, 66], spare = [], endian = Some BigEndian, position = 0, lengthB = 4\<rparr> =
     Return ((147778, None), \<lparr>raw = [0, 2, 65, 66], spare = [], endian = Some BigEndian, position = 4, lengthB = 4\<rparr>) \<and>
   buffer_ok \<lparr>raw = [0, 2, 65, 66], spare = [], endian = Some BigEndian, position = 4, lengthB = 4\<rparr> \<and>
   ReadUnsignedShort \<lparr>raw = [0, 2, 65, 66], spare = [], endian = Some BigEndian, position = 0, lengthB = 4\<rparr> =
     Return ((2, None), \<lparr>raw = [0, 2, 65, 66], spare = [], endian = Some BigEndian, position = 2, lengthB = 4\<rparr>) \<and>
   buffer_ok \<lparr>raw = [0, 2, 65, 66], spare = [], endian = Some BigEndian, position = 2, lengthB = 4\<rparr> \<and>
   ReadUTFBytes \<lparr>raw = [0, 2, 65, 66], spare = [], endian = Some BigEndian, position = 0, lengthB = 4\<rparr> 2 =
     Return (([0, 2], None), \<lparr>raw = [0, 2, 65, 66], spare = [], endian = Some BigEndian, position = 2, lengthB = 4\<rparr>) \<and>
   buffer_ok \<lparr>raw = [0, 2, 65, 66], spare = [], endian = Some BigEndian, position = 2, lengthB = 4\<rparr> \<and>
   ReadUTF \<lparr>raw = [0, 2, 65, 66], spare = [], endian = Some BigEndian, position = 0, lengthB = 4\<rparr> =
     Return (([65, 66], None), \<lparr>raw = [0, 2, 65, 66], spare = [], endian = Some BigEndian, position = 4, lengthB = 4\<rparr>) \<and>
   buffer_ok \<lparr>raw = [0, 2, 65, 66], spare = [], endian = Some BigEndian, position = 4, lengthB = 4\<rparr> \<and>
   ReadBytes \<lparr>raw = [0, 2, 65, 66], spare = [], endian = Some BigEndian, position = 0, lengthB = 4\<rparr>
       \<lparr>raw = [9, 9, 9, 9], spare = [], endian = Some BigEndian, position = 1, lengthB = 2\<rparr> 1 2 =
     Some (Return (None, \<lparr>raw = [0, 2, 65, 66], spare = [], endian = Some BigEndian, position = 2, lengthB = 4\<rparr>,
       \<lparr>raw = [9, 0, 2, 9], spare = [], endian = Some BigEndian, position = 1, lengthB = 2\<rparr>)) \<and>
   buffer_ok \<lparr>raw = [0, 2, 65, 66], spare = [], endian = Some BigEndian, position = 2, lengthB = 4\<rparr> \<and>
   buffer_ok \<lparr>raw = [9, 0, 2, 9], spare = [], endian = Some BigEndian, position = 1, lengthB = 2\<rparr> \<and>
   WriteBoolean \<lparr>raw = [0, 2, 65, 66], spare = [], endian = Some BigEndian, position = 0, lengthB = 4\<rparr> True =
     Some (Return \<lparr>raw = [1, 2, 65, 66], spare = [], endian = Some BigEndian, position = 1, lengthB = 4\<rparr>) \<and>
   buffer_ok \<lparr>raw = [1, 2, 65, 66], spare = [], endian = Some BigEndian, position = 1, lengthB = 4\<rparr> \<and>
   WriteByte \<lparr>raw = [0, 2, 65, 66], spare = [], endian = Some BigEndian, position = 0, lengthB = 4\<rparr> 255 =
     Some (Return \<lparr>raw = [255, 2, 65, 66], spare = [], endian = Some BigEndian, position = 1, lengthB = 4\<rparr>) \<and>
   buffer_ok \<lparr>raw = [255, 2, 65, 66], spare = [], endian = Some BigEndian, position = 1, lengthB = 4\<rparr> \<and>
   WriteDouble \<lparr>raw = [0, 2, 65, 66], spare = [], endian = Some BigEndian, position = 0, lengthB = 4\<rparr> 1 =
     Some (Return \<lparr>raw = [0, 0, 0, 0, 0, 0, 0, 1], spare = [], endian = Some BigEndian, position = 8, lengthB = 8\<rparr>) \<and>
   buffer_ok \<lparr>raw = [0, 0, 0, 0, 0, 0, 0, 1], spare = [], endian = Some BigEndian, position = 8, lengthB = 8\<rparr> \<and>
   WriteFloat \<lparr>raw = [0, 2, 65, 66], spare = [], endian = Some BigEndian, position = 0, lengthB = 4\<rparr> 1 =
     Some (Return \<lparr>raw = [0, 0, 0, 1], spare = [], endian = Some BigEndian, position = 4, lengthB = 4\<rparr>) \<and>
   buffer_ok \<lparr>raw = [0, 0, 0, 1], spare = [], endian = Some BigEndian, position = 4, lengthB = 4\<rparr> \<and>
   WriteInt \<lparr>raw = [0, 2, 65, 66], spare = [], endian = Some BigEndian, position = 0, lengthB = 4\<rparr> 1 =
     Some (Return \<lparr>raw = [0, 0, 0, 1], spare = [], endian = Some BigEndian, position = 4, lengthB = 4\<rparr>) \<and>
   buffer_ok \<lparr>raw = [0, 0, 0, 1], spare = [], endian = Some BigEndian, position = 4, lengthB = 4\<rparr> \<and>
   WriteShort \<lparr>raw = [0, 2, 65, 66], spare = [], endian = Some BigEndian, position = 0, lengthB = 4\<rparr> 1 =
     Some (Return \<lparr>raw = [0, 1, 65, 66], spare = [], endian = Some BigEndian, position = 2, lengthB = 4\<rparr>) \<and>
   buffer_ok \<lparr>raw = [0, 1, 65, 66], spare = [], endian = Some BigEndian, position = 2, lengthB = 4\<rparr> \<and>
   WriteUnsignedInt \<lparr>raw = [0, 2, 65, 66], spare = [], endian = Some BigEndian, position = 0, lengthB = 4\<rparr> 1 =
     Some (Return \<lparr>raw = [0, 0, 0, 1], spare = [], endian = Some BigEndian, position = 4, lengthB = 4\<rparr>) \<and>
   buffer_ok \<lparr>raw = [0, 0, 0, 1], spare = [], endian = Some BigEndian, position = 4, lengthB = 4\<rparr> \<and>
   WriteUTFBytes \<lparr>raw = [0, 2, 65, 66], spare = [], endian = Some BigEndian, position = 0, lengthB = 4\<rparr> [67] =
     Some (Return \<lparr>raw = [67, 2, 65, 66], spare = [], endian = Some BigEndian, position = 1, lengthB = 4\<rparr>) \<and>
   buffer_ok \<lparr>raw = [67, 2, 65, 66], spare = [], endian = Some BigEndian, position = 1, lengthB = 4\<rparr> \<and>
   WriteUTF \<lparr>raw = [0, 2, 65, 66], spare = [], endian = Some BigEndian, position = 0, lengthB = 4\<rparr> [67] =
     Some (Return \<lparr>raw = [0, 1, 67, 66], spare = [], endian = Some BigEndian, position = 3, lengthB = 4\<rparr>) \<and>
   buffer_ok \<lparr>raw = [0, 1, 67, 66], spare = [], endian = Some BigEndian, position = 3, lengthB = 4\<rparr> \<and>
   WriteBytes \<lparr>raw = [0, 2, 65, 66], spare = [], endian = Some BigEndian, position = 0, lengthB = 4\<rparr>
       \<lparr>raw = [9, 9, 9, 9], spare = [], endian = Some BigEndian, position = 1, lengthB = 2\<rparr> 0 1 =
     Some (Return \<lparr>raw = [9, 2, 65, 66], spare = [], endian = Some BigEndian, position = 1, lengthB = 4\<rparr>) \<and>
   cap_ok \<lparr>raw = [9, 2, 65, 66], spare = [], endian = Some BigEndian, position = 1, lengthB = 4\<rparr> \<and>
   cap_ok (SetPosition \<lparr>raw = [0, 2, 65, 66], spare = [], endian = Some BigEndian, position = 0, lengthB = 4\<rparr> 9) \<and>
   position (SetPosition \<lparr>raw = [0, 2, 65, 66], spare = [], endian = Some BigEndian, position = 0, lengthB = 4\<rparr> 9) = 9 \<and>
   \<not> pos_ok (SetPosition \<lparr>raw = [0, 2, 65, 66], spare = [], endian = Some BigEndian, position = 0, lengthB = 4\<rparr> 9)"
proof -
  let ?b = "\<lparr>raw = [0, 2, 65, 66], spare = [], endian = Some BigEndian, position = 0, lengthB = 4\<rparr>"
  let ?d = "\<lparr>raw = [9, 9, 9, 9], spare = [], endian = Some BigEndian, position = 1, lengthB = 2\<rparr>"
  have ok: "buffer_ok ?b" and okd: "buffer_ok ?d"
    by (simp_all add: buffer_ok_def wf_slice_def cap_ok_def pos_ok_def unat_maxInt)
  have new: "NewByteArray None = Some (Return \<lparr>raw = [], spare = [], endian = Some BigEndian, position = 0, lengthB = 0\<rparr>)"
    by (rule NewByteArray_eq)
  note T = C1_relations_kept [OF ok, of None EndianLittle 2 2 ?d 1 2 True 255 1 1 1 1 1 "[67]" "[67]" ?d 0 1 9]
  have e0: "SetLength \<lparr>raw = [0, 2, 65, 66], spare = [], endian = Some BigEndian, position = 0, lengthB = 4\<rparr> 2 =
     Some (Return \<lparr>raw = [0, 2, 65, 66], spare = [], endian = Some BigEndian, position = 0, lengthB = 2\<rparr>)"
    by code_simp
  have e1: "Clear \<lparr>raw = [0, 2, 65, 66], spare = [], endian = Some BigEndian, position = 0, lengthB = 4\<rparr> =
     Some (Return \<lparr>raw = [0, 2, 65, 66], spare = [], endian = Some BigEndian, position = 0, lengthB = 0\<rparr>)"
    by code_simp
  have e2: "ReadBoolean \<lparr>raw = [0, 2, 65, 66], spare = [], endian = Some BigEndian, position = 0, lengthB = 4\<rparr> =
     Return ((False, None), \<lparr>raw = [0, 2, 65, 66], spare = [], endian = Some BigEndian, position = 1, lengthB = 4\<rparr>)"
    by code_simp
  have e3: "ReadByte \<lparr>raw = [0, 2, 65, 66], spare = [], endian = Some BigEndian, position = 0, lengthB = 4\<rparr> =
     Return ((0, None), \<lparr>raw = [0, 2, 65, 66], spare = [], endian = Some BigEndian, position = 1, lengthB = 4\<rparr>)"
    by code_simp
  have e4: "ReadDouble \<lparr>raw = [0, 2, 65, 66], spare = [], endian = Some BigEndian, position = 0, lengthB = 4\<rparr> =
     Return ((0, Some ErrorEOF), \<lparr>raw = [0, 2, 65, 66], spare = [], endian = Some BigEndian, position = 0, lengthB = 4\<rparr>)"
    by code_simp
  have e5: "ReadFloat \<lparr>raw = [0, 2, 65, 66], spare = [], endian = Some BigEndian, position = 0, lengthB = 4\<rparr> =
     Return ((147778, None), \<lparr>raw = [0, 2, 65, 66], spare = [], endian = Some BigEndian, position = 4, lengthB = 4\<rparr>)"
    by code_simp
  have e6: "ReadInt \<lparr>raw = [0, 2, 65, 66], spare = [], endian = Some BigEndian, position = 0, lengthB = 4\<rparr> =
     Return ((147778, None), \<lparr>raw = [0, 2, 65, 66], spare = [], endian = Some BigEndian, position = 4, lengthB = 4\<rparr>)"
    by code_simp
  have e7: "ReadShort \<lparr>raw = [0, 2, 65, 66], spare = [], endian = Some BigEndian, position = 0, lengthB = 4\<rparr> =
     Return ((2, None), \<lparr>raw = [0, 2, 65, 66], spare = [], endian = Some BigEndian, position = 2, lengthB = 4\<rparr>)"
    by code_simp
  have e8: "ReadUnsignedByte \<lparr>raw = [0, 2, 65, 66], spare = [], endian = Some BigEndian, position = 0, lengthB = 4\<rparr> =
     Return ((0, None), \<lparr>raw = [0, 2, 65, 66], spare = [], endian = Some BigEndian, position = 1, lengthB = 4\<rparr>)"
    by code_simp
  have e9: "ReadUnsignedInt \<lparr>raw = [0, 2, 65, 66], spare = [], endian = Some BigEndian, position = 0, lengthB = 4\<rparr> =
     Return ((147778, None), \<lparr>raw = [0, 2, 65, 66], spare = [], endian = Some BigEndian, position = 4, lengthB = 4\<rparr>)"
    by code_simp
  have e10: "ReadUnsignedShort \<lparr>raw = [0, 2, 65, 66], spare = [], endian = Some BigEndian, position = 0, lengthB = 4\<rparr> =
     Return ((2, None), \<lparr>raw = [0, 2, 65, 66], spare = [], endian = Some BigEndian, position = 2, lengthB = 4\<rparr>)"
    by code_simp
  have e11: "ReadUTFBytes \<lparr>raw = [0, 2, 65, 66], spare = [], endian = Some BigEndian, position = 0, lengthB = 4\<rparr> 2 =
     Return (([0, 2], None), \<lparr>raw = [0, 2, 65, 66], spare = [], endian = Some BigEndian, position = 2, lengthB = 4\<rparr>)"
    by code_simp
  have e12: "ReadUTF \<lparr>raw = [0, 2, 65, 66], spare = [], endian = Some BigEndian, position = 0, lengthB = 4\<rparr> =
     Return (([65, 66], None), \<lparr>raw = [0, 2, 65, 66], spare = [], endian = Some BigEndian, position = 4, lengthB = 4\<rparr>)"
    by code_simp
  have e13: "ReadBytes \<lparr>raw = [0, 2, 65, 66], spare = [], endian = Some BigEndian, position = 0, lengthB = 4\<rparr>
       \<lparr>raw = [9, 9, 9, 9], spare = [], endian = Some BigEndian, position = 1, lengthB = 2\<rparr> 1 2 =
     Some (Return (None, \<lparr>raw = [0, 2, 65, 66], spare = [], endian = Some BigEndian, position = 2, lengthB = 4\<rparr>,
       \<lparr>raw = [9, 0, 2, 9], spare = [], endian = Some BigEndian, position = 1, lengthB = 2\<rparr>))"
    by code_simp
  have e14: "WriteBoolean \<lparr>raw = [0, 2, 65, 66], spare = [], endian = Some BigEndian, position = 0, lengthB = 4\<rparr> True =
     Some (Return \<lparr>raw = [1, 2, 65, 66], spare = [], endian = Some BigEndian, position = 1, lengthB = 4\<rparr>)"
    by code_simp
  have e15: "WriteByte \<lparr>raw = [0, 2, 65, 66], spare = [], endian = Some BigEndian, position = 0, lengthB = 4\<rparr> 255 =
     Some (Return \<lparr>raw = [255, 2, 65, 66], spare = [], endian = Some BigEndian, position = 1, lengthB = 4\<rparr>)"
    by code_simp
  have e16: "WriteDouble \<lparr>raw = [0, 2, 65, 66], spare = [], endian = Some BigEndian, position = 0, lengthB = 4\<rparr> 1 =
     Some (Return \<lparr>raw = [0, 0, 0, 0, 0, 0, 0, 1], spare = [], endian = Some BigEndian, position = 8, lengthB = 8\<rparr>)"
    by code_simp
  have e17: "WriteFloat \<lparr>raw = [0, 2, 65, 66], spare = [], endian = Some BigEndian, position = 0, lengthB = 4\<rparr> 1 =
     Some (Return \<lparr>raw = [0, 0, 0, 1], spare = [], endian = Some BigEndian, position = 4, lengthB = 4\<rparr>)"
    by code_simp
  have e18: "WriteInt \<lparr>raw = [0, 2, 65, 66], spare = [], endian = Some BigEndian, position = 0, lengthB = 4\<rparr> 1 =
     Some (Return \<lparr>raw = [0, 0, 0, 1], spare = [], endian = Some BigEndian, position = 4, lengthB = 4\<rparr>)"
    by code_simp
  have e19: "WriteShort \<lparr>raw = [0, 2, 65, 66], spare = [], endian = Some BigEndian, position = 0, lengthB = 4\<rparr> 1 =
     Some (Return \<lparr>raw = [0, 1, 65, 66], spare = [], endian = Some BigEndian, position = 2, lengthB = 4\<rparr>)"
    by code_simp
  have e20: "WriteUnsignedInt \<lparr>raw = [0, 2, 65, 66], spare = [], endian = Some BigEndian, position = 0, lengthB = 4\<rparr> 1 =
     Some (Return \<lparr>raw = [0, 0, 0, 1], spare = [], endian = Some BigEndian, position = 4, lengthB = 4\<rparr>)"
    by code_simp
  have e21: "WriteUTFBytes \<lparr>raw = [0, 2, 65, 66], spare = [], endian = Some BigEndian, position = 0, lengthB = 4\<rparr> [67] =
     Some (Return \<lparr>raw = [67, 2, 65, 66], spare = [], endian = Some BigEndian, position = 1, lengthB = 4\<rparr>)"
    by code_simp
  have e22: "WriteUTF \<lparr>raw = [0, 2, 65, 66], spare = [], endian = Some BigEndian, position = 0, lengthB = 4\<rparr> [67] =
     Some (Return \<lparr>raw = [0, 1, 67, 66], spare = [], endian = Some BigEndian, position = 3, lengthB = 4\<rparr>)"
    by code_simp
  have ew: "WriteBytes ?b ?d 0 1 =
     Some (Return \<lparr>raw = [9, 2, 65, 66], spare = [], endian = Some BigEndian, position = 1, lengthB = 4\<rparr>)"
    by code_simp
  show ?thesis
    using T ok okd new e0 e1 e2 e3 e4 e5 e6 e7 e8 e9 e10 e11 e12 e13 e14 e15 e16 e17 e18 e19 e20 e21 e22 ew
    by (simp add: SetPosition_eq pos_ok_def)
qed

text \<open>
  C1 as stated fails. On the buffer that \<open>NewByteArray(nil)\<close> returns, \<open>SetPosition(5)\<close>
  leaves position 5 above length 0. With that buffer as the destination, \<open>ReadBytes\<close> of
  one byte from offset 0 then returns with length 6 above capacity 1.
\<close>

theorem C1_counterexample:
  "NewByteArray None =
     Some (Return \<lparr>raw = [], spare = [], endian = Some BigEndian, position = 0, lengthB = 0\<rparr>) \<and>
   SetPosition \<lparr>raw = [], spare = [], endian = Some BigEndian, position = 0, lengthB = 0\<rparr> 5 =
     \<lparr>raw = [], spare = [], endian = Some BigEndian, position = 5, lengthB = 0\<rparr> \<and>
   \<not> position \<lparr>raw = [], spare = [], endian = Some BigEndian, position = 5, lengthB = 0\<rparr>
       \<le> lengthB \<lparr>raw = [], spare = [], endian = Some BigEndian, position = 5, lengthB = 0\<rparr> \<and>
   ReadBytes \<lparr>raw = [7], spare = [], endian = Some BigEndian, position = 0, lengthB = 1\<rparr>
       \<lparr>raw = [], spare = [], endian = Some BigEndian, position = 5, lengthB = 0\<rparr> 0 1 =
     Some (Return (None,
       \<lparr>raw = [7], spare = [], endian = Some BigEndian, position = 1, lengthB = 1\<rparr>,
       \<lparr>raw = [7], spare = [], endian = Some BigEndian, position = 5, lengthB = 6\<rparr>)) \<and>
   \<not> unat (lengthB \<lparr>raw = [7], spare = [], endian = Some BigEndian, position = 5, lengthB = 6\<rparr>)
       \<le> length (raw \<lparr>raw = [7], spare = [], endian = Some BigEndian, position = 5, lengthB = 6\<rparr>)"
proof -
  have a: "NewByteArray None =
     Some (Return \<lparr>raw = [], spare = [], endian = Some BigEndian, position = 0, lengthB = 0\<rparr>)"
    by code_simp
  have b: "SetPosition \<lparr>raw = [], spare = [], endian = Some BigEndian, position = 0, lengthB = 0\<rparr> 5 =
     \<lparr>raw = [], spare = [], endian = Some BigEndian, position = 5, lengthB = 0\<rparr>"
    by code_simp
  have c: "ReadBytes \<lparr>raw = [7], spare = [], endian = Some BigEndian, position = 0, lengthB = 1\<rparr>
       \<lparr>raw = [], spare = [], endian = Some BigEndian, position = 5, lengthB = 0\<rparr> 0 1 =
     Some (Return (None,
       \<lparr>raw = [7], spare = [], endian = Some BigEndian, position = 1, lengthB = 1\<rparr>,
       \<lparr>raw = [7], spare = [], endian = Some BigEndian, position = 5, lengthB = 6\<rparr>))"
    by code_simp
  from a b c show ?thesis by simp
qed

section \<open>Construction\<close>

text \<open>
  C10. \<open>NewByteArray(nil)\<close> returns the empty big-endian buffer with capacity, length and
  position 0. \<open>NewByteArray(raw)\<close> for a slice that is not nil keeps that slice as the
  backing store, so the capacity is the length of the slice, with length and position 0
  and big-endian order: no byte is available, a read of one byte fails with the
  end-of-data error and leaves the buffer as it is, and raising the length to any
  \<open>n\<close> within the slice keeps the slice and its bytes and makes \<open>n\<close> of them readable.
  The byte order of the struct that \<open>&ByteArray{}\<close> allocates is nil; the big-endian
  order of the result is the one that the call \<open>SetEndian(EndianBig)\<close> stores.
\<close>

theorem C10_NewByteArray:
  "NewByteArray None =
     Some (Return \<lparr>raw = [], spare = [], endian = Some BigEndian, position = 0, lengthB = 0\<rparr>) \<and>
   NewByteArray (Some (elems, rest)) =
     Some (Return \<lparr>raw = elems, spare = rest, endian = Some BigEndian, position = 0, lengthB = 0\<rparr>) \<and>
   BytesAvailable \<lparr>raw = elems, spare = rest, endian = Some BigEndian, position = 0, lengthB = 0\<rparr> = 0 \<and>
   ReadUnsignedByte \<lparr>raw = elems, spare = rest, endian = Some BigEndian, position = 0, lengthB = 0\<rparr> =
     Return ((0, Some ErrorEOF),
       \<lparr>raw = elems, spare = rest, endian = Some BigEndian, position = 0, lengthB = 0\<rparr>) \<and>
   (0 < n \<and> unat n \<le> length elems \<and> length elems + length rest \<le> unat maxInt \<longrightarrow>
    SetLength \<lparr>raw = elems, spare = rest, endian = Some BigEndian, position = 0, lengthB = 0\<rparr> n =
      Some (Return \<lparr>raw = elems, spare = rest, endian = Some BigEndian, position = 0, lengthB = n\<rparr>))"
proof -
  let ?s = "\<lparr>raw = elems, spare = rest, endian = Some BigEndian, position = 0, lengthB = 0\<rparr>"
  have new_nil: "NewByteArray None =
     Some (Return \<lparr>raw = [], spare = [], endian = Some BigEndian, position = 0, lengthB = 0\<rparr>)"
    by (simp add: NewByteArray_def SetLength_def SetPosition_def SetEndian_def
        EndianBig_def EndianLittle_def)
  have new_some: "NewByteArray (Some (elems, rest)) = Some (Return ?s)"
    by (simp add: NewByteArray_def SetLength_def SetPosition_def SetEndian_def
        EndianBig_def EndianLittle_def)
  have avail: "BytesAvailable ?s = 0"
    by (simp add: BytesAvailable_def)
  have rd: "ReadUnsignedByte ?s = Return ((0, Some ErrorEOF), ?s)"
    by (simp add: ReadUnsignedByte_def checkLength_def BytesAvailable_def byteWide1_def)
  have raise: "SetLength ?s n = Some (Return (?s\<lparr>lengthB := n\<rparr>))"
    if h: "0 < n \<and> unat n \<le> length elems \<and> length elems + length rest \<le> unat maxInt"
  proof -
    have "0 < unat n" using h by (simp add: word_less_nat_alt)
    then have "checkCapacity ?s n = Some (Return ?s)"
      using h by (intro checkCapacity_enough) (auto simp: wf_slice_def)
    moreover have "(0::uint) \<noteq> n" using h by auto
    ultimately show ?thesis using h
      by (simp add: SetLength_def bind_res_def)
  qed
  from new_nil new_some avail rd raise show ?thesis by simp
qed

theorem C10_NewByteArray_witness:
  "NewByteArray (Some ([7, 8], [])) =
     Some (Return \<lparr>raw = [7, 8], spare = [], endian = Some BigEndian, position = 0, lengthB = 0\<rparr>) \<and>
   (0::uint) < 2 \<and> unat (2::uint) \<le> length [7::byte, 8] \<and>
   length [7::byte, 8] + length ([]::byte list) \<le> unat maxInt \<and>
   SetLength \<lparr>raw = [7, 8], spare = [], endian = Some BigEndian, position = 0, lengthB = 0\<rparr> 2 =
     Some (Return \<lparr>raw = [7, 8], spare = [], endian = Some BigEndian, position = 0, lengthB = 2\<rparr>)"
  using C10_NewByteArray [of "[7, 8]" "[]" 2] by (simp add: unat_maxInt)

section \<open>Bulk reads\<close>

text \<open>
  C8. \<open>ReadBytes(dst, offset, 0)\<close> on a buffer with no byte available returns without
  an error and changes nothing: the destination is the same buffer afterwards (length,
  position and content), and so is the source.
\<close>

theorem C8_ReadBytes_nothing_available:
  "BytesAvailable b = 0 \<Longrightarrow> ReadBytes b bytes offset 0 = Some (Return (None, b, bytes))"
  by (simp add: ReadBytes_def)

theorem C8_ReadBytes_nothing_available_witness:
  "BytesAvailable \<lparr>raw = [1, 2], spare = [], endian = Some BigEndian, position = 2, lengthB = 2\<rparr> = 0 \<and>
   ReadBytes \<lparr>raw = [1, 2], spare = [], endian = Some BigEndian, position = 2, lengthB = 2\<rparr>
       \<lparr>raw = [9, 9, 9, 0], spare = [], endian = Some LittleEndian, position = 1, lengthB = 3\<rparr> 1 0 =
     Some (Return (None,
       \<lparr>raw = [1, 2], spare = [], endian = Some BigEndian, position = 2, lengthB = 2\<rparr>,
       \<lparr>raw = [9, 9, 9, 0], spare = [], endian = Some LittleEndian, position = 1, lengthB = 3\<rparr>))"
proof -
  have h: "BytesAvailable \<lparr>raw = [1, 2], spare = [], endian = Some BigEndian, position = 2, lengthB = 2\<rparr> = 0"
    by (simp add: BytesAvailable_def)
  from h C8_ReadBytes_nothing_available [OF h] show ?thesis by simp
qed

section \<open>Failed reads\<close>

lemma ReadUTF_EOF:
  assumes pre: "ReadUnsignedShort b = Return ((m, None), b1)"
    and fail: "ReadUTF b = Return ((s, Some ErrorEOF), b')"
  shows "b' = b1 \<and> b' = b\<lparr>position := position b + 2\<rparr>"
proof -
  from pre have b1: "b1 = b\<lparr>position := position b + 2\<rparr>"
    by (auto simp: ReadUnsignedShort_def movePointer_pos byteWide2_def
        split: option.splits dest!: bind_panic_Return)
  from pre fail have "ReadUTFBytes b1 m = Return ((s, Some ErrorEOF), b')"
    by (simp add: ReadUTF_def bind_panic_def)
  then have "b' = b1"
    by (auto simp: ReadUTFBytes_def split: option.splits dest!: bind_panic_Return)
  with b1 show ?thesis by simp
qed

lemma ReadBytes_EOF:
  assumes "ReadBytes b bytes offset len = Some (Return (Some ErrorEOF, b', bytes'))"
  shows "b' = b \<and> bytes' = bytes"
proof -
  have copy: "b' = b \<and> bytes' = bytes"
    if "ReadBytes_copy b bytes offset n = Some (Return (Some ErrorEOF, b', bytes'))" for n
    using that unfolding ReadBytes_copy_def Let_def
    by (auto split: if_splits dest!: bind_res_Return bind_panic_Return)
  show ?thesis using assms copy
    by (auto simp: ReadBytes_def Let_def split: if_splits option.splits)
qed

text \<open>
  C3, as the code has it. A read that makes one availability check (\<open>ReadBoolean\<close>,
  \<open>ReadByte\<close>, \<open>ReadDouble\<close>, \<open>ReadFloat\<close>, \<open>ReadInt\<close>, \<open>ReadShort\<close>,
  \<open>ReadUnsignedByte\<close>, \<open>ReadUnsignedInt\<close>, \<open>ReadUnsignedShort\<close>, \<open>ReadUTFBytes\<close>,
  \<open>ReadBytes\<close>) and fails with the end-of-data error leaves the buffer, and for
  \<open>ReadBytes\<close> the destination too, exactly as it was. When \<open>ReadUTF\<close> has read its
  two-byte length prefix (\<open>ReadUnsignedShort\<close> returns without an error) and then fails
  with the end-of-data error, the buffer is the one that the prefix read left: the
  position has moved on by 2 and nothing else has changed. (A \<open>ReadUTF\<close> whose prefix
  read fails is the matter of C4 and is left out here.)
\<close>

theorem C3_failed_read_leaves_buffer:
  "(ReadBoolean b = Return ((va, Some ErrorEOF), ba) \<longrightarrow> ba = b) \<and>
   (ReadByte b = Return ((vb, Some ErrorEOF), bb) \<longrightarrow> bb = b) \<and>
   (ReadDouble b = Return ((vc, Some ErrorEOF), bc) \<longrightarrow> bc = b) \<and>
   (ReadFloat b = Return ((vd, Some ErrorEOF), bd) \<longrightarrow> bd = b) \<and>
   (ReadInt b = Return ((ve, Some ErrorEOF), be) \<longrightarrow> be = b) \<and>
   (ReadShort b = Return ((vf, Some ErrorEOF), bf) \<longrightarrow> bf = b) \<and>
   (ReadUnsignedByte b = Return ((vg, Some ErrorEOF), bg) \<longrightarrow> bg = b) \<and>
   (ReadUnsignedInt b = Return ((vh, Some ErrorEOF), bh) \<longrightarrow> bh = b) \<and>
   (ReadUnsignedShort b = Return ((vi, Some ErrorEOF), bi) \<longrightarrow> bi = b) \<and>
   (ReadUTFBytes b n = Return ((sa, Some ErrorEOF), bj) \<longrightarrow> bj = b) \<and>
   (ReadBytes b bytes offset len = Some (Return (Some ErrorEOF, bk, bytes')) \<longrightarrow>
      bk = b \<and> bytes' = bytes) \<and>
   (ReadUnsignedShort b = Return ((m, None), bm) \<and>
    ReadUTF b = Return ((sb, Some ErrorEOF), bl) \<longrightarrow>
      bl = bm \<and> bl = b\<lparr>position := position b + 2\<rparr>)"
proof -
  have "ReadBoolean b = Return ((va, Some ErrorEOF), ba) \<longrightarrow> ba = b"
    by (auto simp: ReadBoolean_def split: option.splits dest!: bind_panic_Return)
  moreover have "ReadByte b = Return ((vb, Some ErrorEOF), bb) \<longrightarrow> bb = b"
    by (auto simp: ReadByte_def split: option.splits dest!: bind_panic_Return)
  moreover have "ReadDouble b = Return ((vc, Some ErrorEOF), bc) \<longrightarrow> bc = b"
    by (auto simp: ReadDouble_def split: option.splits dest!: bind_panic_Return)
  moreover have "ReadFloat b = Return ((vd, Some ErrorEOF), bd) \<longrightarrow> bd = b"
    by (auto simp: ReadFloat_def split: option.splits dest!: bind_panic_Return)
  moreover have "ReadInt b = Return ((ve, Some ErrorEOF), be) \<longrightarrow> be = b"
    by (auto simp: ReadInt_def split: option.splits dest!: bind_panic_Return)
  moreover have "ReadShort b = Return ((vf, Some ErrorEOF), bf) \<longrightarrow> bf = b"
    by (auto simp: ReadShort_def split: option.splits dest!: bind_panic_Return)
  moreover have "ReadUnsignedByte b = Return ((vg, Some ErrorEOF), bg) \<longrightarrow> bg = b"
    by (auto simp: ReadUnsignedByte_def split: option.splits dest!: bind_panic_Return)
  moreover have "ReadUnsignedInt b = Return ((vh, Some ErrorEOF), bh) \<longrightarrow> bh = b"
    by (auto simp: ReadUnsignedInt_def split: option.splits dest!: bind_panic_Return)
  moreover have "ReadUnsignedShort b = Return ((vi, Some ErrorEOF), bi) \<longrightarrow> bi = b"
    by (auto simp: ReadUnsignedShort_def split: option.splits dest!: bind_panic_Return)
  moreover have "ReadUTFBytes b n = Return ((sa, Some ErrorEOF), bj) \<longrightarrow> bj = b"
    by (auto simp: ReadUTFBytes_def split: option.splits dest!: bind_panic_Return)
  moreover have "ReadBytes b bytes offset len = Some (Return (Some ErrorEOF, bk, bytes')) \<longrightarrow>
      bk = b \<and> bytes' = bytes"
    by (blast dest: ReadBytes_EOF)
  moreover have "ReadUnsignedShort b = Return ((m, None), bm) \<and>
    ReadUTF b = Return ((sb, Some ErrorEOF), bl) \<longrightarrow>
      bl = bm \<and> bl = b\<lparr>position := position b + 2\<rparr>"
    by (blast dest: ReadUTF_EOF)
  ultimately show ?thesis by blast
qed

theorem C3_failed_read_leaves_buffer_witness:
  "ReadBoolean \<lparr>raw = [0, 5], spare = [], endian = Some BigEndian, position = 2, lengthB = 2\<rparr> =
     Return ((False, Some ErrorEOF), \<lparr>raw = [0, 5], spare = [], endian = Some BigEndian, position = 2, lengthB = 2\<rparr>) \<and>
   ReadByte \<lparr>raw = [0, 5], spare = [], endian = Some BigEndian, position = 2, lengthB = 2\<rparr> =
     Return ((0, Some ErrorEOF), \<lparr>raw = [0, 5], spare = [], endian = Some BigEndian, position = 2, lengthB = 2\<rparr>) \<and>
   ReadDouble \<lparr>raw = [0, 5], spare = [], endian = Some BigEndian, position = 2, lengthB = 2\<rparr> =
     Return ((0, Some ErrorEOF), \<lparr>raw = [0, 5], spare = [], endian = Some BigEndian, position = 2, lengthB = 2\<rparr>) \<and>
   ReadFloat \<lparr>raw = [0, 5], spare = [], endian = Some BigEndian, position = 2, lengthB = 2\<rparr> =
     Return ((0, Some ErrorEOF), \<lparr>raw = [0, 5], spare = [], endian = Some BigEndian, position = 2, lengthB = 2\<rparr>) \<and>
   ReadInt \<lparr>raw = [0, 5], spare = [], endian = Some BigEndian, position = 2, lengthB = 2\<rparr> =
     Return ((0, Some ErrorEOF), \<lparr>raw = [0, 5], spare = [], endian = Some BigEndian, position = 2, lengthB = 2\<rparr>) \<and>
   ReadShort \<lparr>raw = [0, 5], spare = [], endian = Some BigEndian, position = 2, lengthB = 2\<rparr> =
     Return ((0, Some ErrorEOF), \<lparr>raw = [0, 5], spare = [], endian = Some BigEndian, position = 2, lengthB = 2\<rparr>) \<and>
   ReadUnsignedByte \<lparr>raw = [0, 5], spare = [], endian = Some BigEndian, position = 2, lengthB = 2\<rparr> =
     Return ((0, Some ErrorEOF), \<lparr>raw = [0, 5], spare = [], endian = Some BigEndian, position = 2, lengthB = 2\<rparr>) \<and>
   ReadUnsignedInt \<lparr>raw = [0, 5], spare = [], endian = Some BigEndian, position = 2, lengthB = 2\<rparr> =
     Return ((0, Some ErrorEOF), \<lparr>raw = [0, 5], spare = [], endian = Some BigEndian, position = 2, lengthB = 2\<rparr>) \<and>
   ReadUnsignedShort \<lparr>raw = [0, 5], spare = [], endian = Some BigEndian, position = 2, lengthB = 2\<rparr> =
     Return ((0, Some ErrorEOF), \<lparr>raw = [0, 5], spare = [], endian = Some BigEndian, position = 2, lengthB = 2\<rparr>) \<and>
   ReadUTFBytes \<lparr>raw = [0, 5], spare = [], endian = Some BigEndian, position = 2, lengthB = 2\<rparr> 3 =
     Return (([], Some ErrorEOF), \<lparr>raw = [0, 5], spare = [], endian = Some BigEndian, position = 2, lengthB = 2\<rparr>) \<and>
   ReadBytes \<lparr>raw = [0, 5], spare = [], endian = Some BigEndian, position = 2, lengthB = 2\<rparr>
       \<lparr>raw = [9], spare = [], endian = Some BigEndian, position = 0, lengthB = 1\<rparr> 0 3 =
     Some (Return (Some ErrorEOF, \<lparr>raw = [0, 5], spare = [], endian = Some BigEndian, position = 2, lengthB = 2\<rparr>,
       \<lparr>raw = [9], spare = [], endian = Some BigEndian, position = 0, lengthB = 1\<rparr>)) \<and>
   ReadUnsignedShort \<lparr>raw = [0, 5], spare = [], endian = Some BigEndian, position = 0, lengthB = 2\<rparr> =
     Return ((5, None), \<lparr>raw = [0, 5], spare = [], endian = Some BigEndian, position = 2, lengthB = 2\<rparr>) \<and>
   ReadUTF \<lparr>raw = [0, 5], spare = [], endian = Some BigEndian, position = 0, lengthB = 2\<rparr> =
     Return (([], Some ErrorEOF), \<lparr>raw = [0, 5], spare = [], endian = Some BigEndian, position = 2, lengthB = 2\<rparr>) \<and>
   \<lparr>raw = [0, 5], spare = [], endian = Some BigEndian, position = 2, lengthB = 2\<rparr> =
     \<lparr>raw = [0, 5], spare = [], endian = Some BigEndian, position = 0, lengthB = 2\<rparr>\<lparr>position := position \<lparr>raw = [0, 5], spare = [], endian = Some BigEndian, position = 0, lengthB = 2\<rparr> + 2\<rparr>"
proof -
  let ?e = "\<lparr>raw = [0, 5], spare = [], endian = Some BigEndian, position = 2, lengthB = 2\<rparr>"
  let ?u = "\<lparr>raw = [0, 5], spare = [], endian = Some BigEndian, position = 0, lengthB = 2\<rparr>"
  let ?d = "\<lparr>raw = [9], spare = [], endian = Some BigEndian, position = 0, lengthB = 1\<rparr>"
  have e0: "ReadBoolean \<lparr>raw = [0, 5], spare = [], endian = Some BigEndian, position = 2, lengthB = 2\<rparr> =
     Return ((False, Some ErrorEOF), \<lparr>raw = [0, 5], spare = [], endian = Some BigEndian, position = 2, lengthB = 2\<rparr>)"
    by code_simp
  have e1: "ReadByte \<lparr>raw = [0, 5], spare = [], endian = Some BigEndian, position = 2, lengthB = 2\<rparr> =
     Return ((0, Some ErrorEOF), \<lparr>raw = [0, 5], spare = [], endian = Some BigEndian, position = 2, lengthB = 2\<rparr>)"
    by code_simp
  have e2: "ReadDouble \<lparr>raw = [0, 5], spare = [], endian = Some BigEndian, position = 2, lengthB = 2\<rparr> =
     Return ((0, Some ErrorEOF), \<lparr>raw = [0, 5], spare = [], endian = Some BigEndian, position = 2, lengthB = 2\<rparr>)"
    by code_simp
  have e3: "ReadFloat \<lparr>raw = [0, 5], spare = [], endian = Some BigEndian, position = 2, lengthB = 2\<rparr> =
     Return ((0, Some ErrorEOF), \<lparr>raw = [0, 5], spare = [], endian = Some BigEndian, position = 2, lengthB = 2\<rparr>)"
    by code_simp
  have e4: "ReadInt \<lparr>raw = [0, 5], spare = [], endian = Some BigEndian, position = 2, lengthB = 2\<rparr> =
     Return ((0, Some ErrorEOF), \<lparr>raw = [0, 5], spare = [], endian = Some BigEndian, position = 2, lengthB = 2\<rparr>)"
    by code_simp
  have e5: "ReadShort \<lparr>raw = [0, 5], spare = [], endian = Some BigEndian, position = 2, lengthB = 2\<rparr> =
     Return ((0, Some ErrorEOF), \<lparr>raw = [0, 5], spare = [], endian = Some BigEndian, position = 2, lengthB = 2\<rparr>)"
    by code_simp
  have e6: "ReadUnsignedByte \<lparr>raw = [0, 5], spare = [], endian = Some BigEndian, position = 2, lengthB = 2\<rparr> =
     Return ((0, Some ErrorEOF), \<lparr>raw = [0, 5], spare = [], endian = Some BigEndian, position = 2, lengthB = 2\<rparr>)"
    by code_simp
  have e7: "ReadUnsignedInt \<lparr>raw = [0, 5], spare = [], endian = Some BigEndian, position = 2, lengthB = 2\<rparr> =
     Return ((0, Some ErrorEOF), \<lparr>raw = [0, 5], spare = [], endian = Some BigEndian, position = 2, lengthB = 2\<rparr>)"
    by code_simp
  have e8: "ReadUnsignedShort \<lparr>raw = [0, 5], spare = [], endian = Some BigEndian, position = 2, lengthB = 2\<rparr> =
     Return ((0, Some ErrorEOF), \<lparr>raw = [0, 5], spare = [], endian = Some BigEndian, position = 2, lengthB = 2\<rparr>)"
    by code_simp
  have e9: "ReadUTFBytes \<lparr>raw = [0, 5], spare = [], endian = Some BigEndian, position = 2, lengthB = 2\<rparr> 3 =
     Return (([], Some ErrorEOF), \<lparr>raw = [0, 5], spare = [], endian = Some BigEndian, position = 2, lengthB = 2\<rparr>)"
    by code_simp
  have e10: "ReadBytes \<lparr>raw = [0, 5], spare = [], endian = Some BigEndian, position = 2, lengthB = 2\<rparr>
       \<lparr>raw = [9], spare = [], endian = Some BigEndian, position = 0, lengthB = 1\<rparr> 0 3 =
     Some (Return (Some ErrorEOF, \<lparr>raw = [0, 5], spare = [], endian = Some BigEndian, position = 2, lengthB = 2\<rparr>,
       \<lparr>raw = [9], spare = [], endian = Some BigEndian, position = 0, lengthB = 1\<rparr>))"
    by code_simp
  have e11: "ReadUTF \<lparr>raw = [0, 5], spare = [], endian = Some BigEndian, position = 0, lengthB = 2\<rparr> =
     Return (([], Some ErrorEOF), \<lparr>raw = [0, 5], spare = [], endian = Some BigEndian, position = 2, lengthB = 2\<rparr>)"
    by code_simp
  note T1 = C3_failed_read_leaves_buffer [where b = ?e and ba = ?e and va = False and bb = ?e and vb = 0
      and bc = ?e and vc = 0 and bd = ?e and vd = 0 and be = ?e and ve = 0 and bf = ?e and vf = 0
      and bg = ?e and vg = 0 and bh = ?e and vh = 0 and bi = ?e and vi = 0
      and n = 3 and sa = "[]" and bj = ?e and bytes = ?d and offset = 0 and len = 3
      and bk = ?e and bytes' = ?d]
  have e12: "ReadUnsignedShort ?u =
     Return ((5, None), \<lparr>raw = [0, 5], spare = [], endian = Some BigEndian, position = 2, lengthB = 2\<rparr>)"
    by code_simp
  note T2 = C3_failed_read_leaves_buffer [where b = ?u and sb = "[]" and m = 5
      and bm = "\<lparr>raw = [0, 5], spare = [], endian = Some BigEndian, position = 2, lengthB = 2\<rparr>"
      and bl = "\<lparr>raw = [0, 5], spare = [], endian = Some BigEndian, position = 2, lengthB = 2\<rparr>"]
  show ?thesis
    using T1 T2 e0 e1 e2 e3 e4 e5 e6 e7 e8 e9 e10 e11 e12
    by simp
qed

text \<open>
  C3 as stated fails for \<open>ReadUTF\<close>: on the two bytes \<open>00 05\<close> it fails with the
  end-of-data error (the prefix asks for 5 bytes, none is left) and the position has
  moved from 0 to 2.
\<close>

theorem C3_counterexample:
  "ReadUTF \<lparr>raw = [0, 5], spare = [], endian = Some BigEndian, position = 0, lengthB = 2\<rparr> =
     Return (([], Some ErrorEOF),
       \<lparr>raw = [0, 5], spare = [], endian = Some BigEndian, position = 2, lengthB = 2\<rparr>) \<and>
   position \<lparr>raw = [0, 5], spare = [], endian = Some BigEndian, position = 2, lengthB = 2\<rparr> \<noteq>
   position \<lparr>raw = [0, 5], spare = [], endian = Some BigEndian, position = 0, lengthB = 2\<rparr>"
proof -
  have a: "ReadUTF \<lparr>raw = [0, 5], spare = [], endian = Some BigEndian, position = 0, lengthB = 2\<rparr> =
     Return (([], Some ErrorEOF),
       \<lparr>raw = [0, 5], spare = [], endian = Some BigEndian, position = 2, lengthB = 2\<rparr>)"
    by code_simp
  from a show ?thesis by simp
qed

text \<open>
  C4 on the code: with no byte (or one byte) available, \<open>ReadUnsignedShort\<close> fails with
  the end-of-data error, and \<open>ReadUTF\<close>, which drops that error and goes on with length
  0, returns the empty string and no error.
\<close>

theorem C4_ReadUTF_swallows_error:
  "ReadUnsignedShort \<lparr>raw = [], spare = [], endian = Some BigEndian, position = 0, lengthB = 0\<rparr> =
     Return ((0, Some ErrorEOF),
       \<lparr>raw = [], spare = [], endian = Some BigEndian, position = 0, lengthB = 0\<rparr>) \<and>
   ReadUTF \<lparr>raw = [], spare = [], endian = Some BigEndian, position = 0, lengthB = 0\<rparr> =
     Return (([], None),
       \<lparr>raw = [], spare = [], endian = Some BigEndian, position = 0, lengthB = 0\<rparr>) \<and>
   ReadUnsignedShort \<lparr>raw = [7], spare = [], endian = Some BigEndian, position = 0, lengthB = 1\<rparr> =
     Return ((0, Some ErrorEOF),
       \<lparr>raw = [7], spare = [], endian = Some BigEndian, position = 0, lengthB = 1\<rparr>) \<and>
   ReadUTF \<lparr>raw = [7], spare = [], endian = Some BigEndian, position = 0, lengthB = 1\<rparr> =
     Return (([], None),
       \<lparr>raw = [7], spare = [], endian = Some BigEndian, position = 0, lengthB = 1\<rparr>)"
  by code_simp

section \<open>Signed integers\<close>

text \<open>
  Decoding the four bytes that encode a 32-bit word gives the word back, in either order.
\<close>

lemma bytes_be_4: "bytes_be 4 v = [ucast (drop_bit 24 v), ucast (drop_bit 16 v), ucast (drop_bit 8 v), ucast v]"
  by (simp add: numeral_eq_Suc)

lemma word_be_4: "word_be [a, b, c, d] =
  push_bit 8 (push_bit 8 (push_bit 8 (ucast a) OR ucast b) OR ucast c) OR ucast d"
  by (simp add: word_be_def)

lemma roundtrip_be_32: "word_be (bytes_be 4 (v :: uint32)) = v"
  unfolding bytes_be_4 word_be_4
proof (rule bit_word_eqI)
  fix n :: nat
  assume n: "n < LENGTH(32)"
  consider "n < 8" | "8 \<le> n" "n < 16" | "16 \<le> n" "n < 24" | "24 \<le> n" by linarith
  then show "bit (push_bit 8 (push_bit 8 (push_bit 8 (ucast (ucast (drop_bit 24 v) :: byte)) OR
                ucast (ucast (drop_bit 16 v) :: byte)) OR ucast (ucast (drop_bit 8 v) :: byte)) OR
                ucast (ucast v :: byte) :: uint32) n = bit v n"
  proof cases
    case 1 then show ?thesis using n by (simp add: bit_simps)
  next
    case 2 then show ?thesis using n by (auto simp: bit_simps)
  next
    case 3 then show ?thesis using n by (auto simp: bit_simps)
  next
    case 4 then show ?thesis using n by (auto simp: bit_simps)
  qed
qed

lemma roundtrip_32: "decode_order e (encode_order e 4 (v :: uint32)) = (v :: uint32)"
  by (cases e) (simp_all add: decode_order_def encode_order_def roundtrip_be_32)

lemma store_read_back:
  assumes "lo + length bs \<le> length (raw b)"
  shows "take (length bs) (drop lo (raw (store b lo bs))) = bs"
  using assms by (simp add: store_def Let_def)

lemma sint_widened: "sint (ucast (v :: uint32) :: 64 word) = uint v"
proof -
  have "sint (ucast v :: 64 word) = signed_take_bit (LENGTH(64) - Suc 0) (uint v)"
    by (rule signed_ucast_eq)
  also have "\<dots> = uint v"
  proof (rule signed_take_bit_int_eq_self)
    have "- (2 ^ (LENGTH(64) - Suc 0)) \<le> (0 :: int)" by simp
    also have "0 \<le> uint v" by simp
    finally show "- (2 ^ (LENGTH(64) - Suc 0)) \<le> uint v" .
    have "uint v < 2 ^ LENGTH(32)" by (rule uint_lt2p)
    also have "(2 :: int) ^ LENGTH(32) < 2 ^ (LENGTH(64) - Suc 0)" by simp
    finally show "uint v < 2 ^ (LENGTH(64) - Suc 0)" .
  qed
  finally show ?thesis .
qed

text \<open>
  For every 32-bit pattern \<open>v\<close> and either byte order, \<open>WriteInt\<close> followed by
  \<open>SetPosition\<close> back to the old position and \<open>ReadInt\<close> returns \<open>uint v\<close>, the unsigned
  reading of the pattern: the value written when it is not negative, and the value plus
  \<open>2 ^ 32\<close> when it is.
\<close>

lemma WriteInt_then_ReadInt:
  assumes wf: "wf_slice b" and cap: "cap_ok b" and small: "unat (position b) + 4 \<le> 2 ^ 47"
    and en: "endian b = Some e"
  shows "\<exists>b1 b2. WriteInt b v = Some (Return b1) \<and>
           ReadInt (SetPosition b1 (position b)) = Return ((uint v, None), b2)"
proof -
  let ?p = "position b"
  have sum: "unat (?p + 4) = unat ?p + 4"
  proof -
    have "unat ?p + unat (4 :: uint) < 2 ^ LENGTH(64)" using small by simp
    then have "unat (?p + 4) = unat ?p + unat (4 :: uint)" by (rule unat_add_lem[THEN iffD1])
    then show ?thesis by simp
  qed
  have "unat (?p + 4) \<le> 2 ^ 47" using sum small by simp
  from checkCapacity_total[OF wf cap this] obtain b1 where
    c: "checkCapacity b (?p + 4) = Some (Return b1)" by blast
  from checkCapacity_Return[OF wf cap c]
  have f: "unat (?p + 4) \<le> length (raw b1)" "position b1 = ?p" "lengthB b1 = lengthB b"
    "endian b1 = endian b" by simp_all
  let ?bs = "encode_order e 4 v"
  let ?b2 = "store b1 (unat ?p) ?bs"
  have fit: "unat ?p + length ?bs \<le> length (raw b1)"
    using f(1) sum by (simp add: length_encode_order)
  have put: "put_uint b1 (position b1) 4 v = Return ?b2"
    using fit f en by (simp add: put_uint_def length_encode_order)
  let ?b3 = "movePointer ?b2 byteWide4 (pointerPosition OR pointerLength)"
  have w: "WriteInt b v = Some (Return ?b3)"
    using c put by (simp add: WriteInt_def bind_res_def bind_panic_def byteWide4_def)
  define b4 where "b4 = SetPosition ?b3 ?p"
  have p4: "position b4 = ?p" by (simp add: b4_def SetPosition_eq)
  have r4: "raw b4 = raw ?b2" "endian b4 = endian b"
    using f(4) by (simp_all add: b4_def SetPosition_eq movePointer_both store_fields)
  have l4: "?p + 4 \<le> lengthB b4"
    by (simp add: b4_def SetPosition_eq movePointer_both store_fields f byteWide4_def not_less)
  have lt: "?p < ?p + 4" using sum by (simp add: word_less_nat_alt)
  have pl: "?p < lengthB b4" using lt l4 by simp
  have avail: "checkLength b4 byteWide4 = None"
  proof -
    have "unat (lengthB b4 - ?p) = unat (lengthB b4) - unat ?p"
      using pl by (simp add: unat_sub)
    moreover have "unat ?p + 4 \<le> unat (lengthB b4)"
      using l4 sum by (simp add: word_le_nat_alt)
    ultimately have "4 \<le> lengthB b4 - ?p" by (simp add: word_le_nat_alt)
    with pl show ?thesis
      by (simp add: checkLength_def BytesAvailable_def p4 byteWide4_def not_less)
  qed
  have len2: "length (raw ?b2) = length (raw b1)"
    using fit by (simp add: store_lengths)
  have rdb: "take 4 (drop (unat ?p) (raw ?b2)) = ?bs"
    using store_read_back[OF fit] by (simp add: length_encode_order)
  have get: "get_uint b4 (position b4) 4 = Return (v :: uint32)"
    using fit len2 rdb f(4) en
    by (simp add: get_uint_def p4 r4 length_encode_order roundtrip_32)
  have "ReadInt b4 = Return ((sint (ucast v :: 64 word), None), movePointer b4 byteWide4 pointerPosition)"
    using avail get by (simp add: ReadInt_def bind_panic_def)
  moreover have "sint (ucast v :: 64 word) = uint v" by (rule sint_widened)
  ultimately show ?thesis using w by (auto simp: b4_def)
qed

text \<open>
  C2 on the code: after \<open>WriteInt(-1)\<close> on an empty big-endian buffer and
  \<open>SetPosition(0)\<close>, \<open>ReadInt\<close> returns 4294967295, and after \<open>WriteInt(-2)\<close> in
  little-endian order it returns 4294967294: the four bytes are read as a \<open>uint32\<close> and
  widened to \<open>int\<close> without sign extension.
\<close>

theorem C2_ReadInt_of_negative:
  "WriteInt \<lparr>raw = [], spare = [], endian = Some BigEndian, position = 0, lengthB = 0\<rparr> (- 1) =
     Some (Return \<lparr>raw = [255, 255, 255, 255], spare = [], endian = Some BigEndian, position = 4, lengthB = 4\<rparr>) \<and>
   SetPosition \<lparr>raw = [255, 255, 255, 255], spare = [], endian = Some BigEndian, position = 4, lengthB = 4\<rparr> 0 =
     \<lparr>raw = [255, 255, 255, 255], spare = [], endian = Some BigEndian, position = 0, lengthB = 4\<rparr> \<and>
   ReadInt \<lparr>raw = [255, 255, 255, 255], spare = [], endian = Some BigEndian, position = 0, lengthB = 4\<rparr> =
     Return ((4294967295, None),
       \<lparr>raw = [255, 255, 255, 255], spare = [], endian = Some BigEndian, position = 4, lengthB = 4\<rparr>) \<and>
   sint (- 1 :: uint32) = - 1 \<and>
   WriteInt \<lparr>raw = [], spare = [], endian = Some LittleEndian, position = 0, lengthB = 0\<rparr> (- 2) =
     Some (Return \<lparr>raw = [254, 255, 255, 255], spare = [], endian = Some LittleEndian, position = 4, lengthB = 4\<rparr>) \<and>
   ReadInt \<lparr>raw = [254, 255, 255, 255], spare = [], endian = Some LittleEndian, position = 0, lengthB = 4\<rparr> =
     Return ((4294967294, None),
       \<lparr>raw = [254, 255, 255, 255], spare = [], endian = Some LittleEndian, position = 4, lengthB = 4\<rparr>) \<and>
   sint (- 2 :: uint32) = - 2"
proof -
  have a: "WriteInt \<lparr>raw = [], spare = [], endian = Some BigEndian, position = 0, lengthB = 0\<rparr> (- 1) =
     Some (Return \<lparr>raw = [255, 255, 255, 255], spare = [], endian = Some BigEndian, position = 4, lengthB = 4\<rparr>)"
    by code_simp
  have b: "SetPosition \<lparr>raw = [255, 255, 255, 255], spare = [], endian = Some BigEndian, position = 4, lengthB = 4\<rparr> 0 =
     \<lparr>raw = [255, 255, 255, 255], spare = [], endian = Some BigEndian, position = 0, lengthB = 4\<rparr>"
    by code_simp
  have c: "ReadInt \<lparr>raw = [255, 255, 255, 255], spare = [], endian = Some BigEndian, position = 0, lengthB = 4\<rparr> =
     Return ((4294967295, None),
       \<lparr>raw = [255, 255, 255, 255], spare = [], endian = Some BigEndian, position = 4, lengthB = 4\<rparr>)"
    by code_simp
  have d: "WriteInt \<lparr>raw = [], spare = [], endian = Some LittleEndian, position = 0, lengthB = 0\<rparr> (- 2) =
     Some (Return \<lparr>raw = [254, 255, 255, 255], spare = [], endian = Some LittleEndian, position = 4, lengthB = 4\<rparr>)"
    by code_simp
  have e: "ReadInt \<lparr>raw = [254, 255, 255, 255], spare = [], endian = Some LittleEndian, position = 0, lengthB = 4\<rparr> =
     Return ((4294967294, None),
       \<lparr>raw = [254, 255, 255, 255], spare = [], endian = Some LittleEndian, position = 4, lengthB = 4\<rparr>)"
    by code_simp
  from a b c d e show ?thesis by simp
qed

section \<open>Bulk transfers\<close>

text \<open>
  What a \<open>ReadBytes\<close> that copies \<open>len\<close> bytes does, for a destination with
  \<open>length \<le> capacity\<close>: the destination holds \<open>offset + len\<close> bytes, the bytes from the
  source position stand at \<open>offset\<close>, the destination position is unchanged, the source
  position has moved on by \<open>len\<close>, and the length of the destination is its position plus
  \<open>offset + len - length\<close> when that is larger than the length, which is \<open>offset + len\<close>
  only when the position of the destination is at its length.
\<close>

lemma store_raw_slice:
  assumes "lo + length bs \<le> length (raw b)"
  shows "take (length bs) (drop lo (raw (store b lo bs))) = bs"
    and "take lo (raw (store b lo bs)) = take lo (raw b)"
    and "drop (lo + length bs) (raw (store b lo bs)) = drop (lo + length bs) (raw b)"
  using assms by (simp_all add: store_def Let_def)

lemma ReadBytes_copy_effect:
  assumes wf: "wf_slice bytes" and cap: "cap_ok bytes"
    and ret: "ReadBytes_copy b bytes offset len = Some (Return (None, b', bytes'))"
  shows "unat offset + unat len \<le> length (raw bytes') \<and>
         take (unat len) (drop (unat offset) (raw bytes')) =
           take (unat len) (drop (unat (position b)) (raw b @ spare b)) \<and>
         position bytes' = position bytes \<and>
         lengthB bytes' =
           (if lengthB bytes < offset + len \<and>
               lengthB bytes < position bytes + (offset + len - lengthB bytes)
            then position bytes + (offset + len - lengthB bytes) else lengthB bytes) \<and>
         b' = b\<lparr>position := position b + len\<rparr>"
proof -
  from ret have nr: "\<not> MaxUint32 < offset + len"
    by (auto simp: ReadBytes_copy_def split: if_splits)
  with ret obtain bytes1 data bytes2 where
    c: "checkCapacity bytes (offset + len) = Some (Return bytes1)" and
    g: "slice_get b (position b) (position b + len) = Return data" and
    s: "copy_range bytes1 offset (offset + len) data = Return bytes2" and
    b': "b' = movePointer b len pointerPosition" and
    d': "bytes' = (if offset + len > lengthB bytes2
                   then movePointer bytes2 (offset + len - lengthB bytes2) pointerLength
                   else bytes2)"
    unfolding ReadBytes_copy_def Let_def
    by (fastforce dest!: bind_res_Return bind_panic_Return)
  note cc = checkCapacity_then_copy[OF wf cap c copy_range_shape[OF s]]
  from s have lohi: "unat offset \<le> unat (offset + len)"
    and b2: "bytes2 = store bytes1 (unat offset) (take (unat (offset + len) - unat offset) data)"
    by (auto simp: copy_range_def split: if_splits)
  have osum: "unat (offset + len) = unat offset + unat len"
    using lohi by (metis no_olen_add_nat unat_add_lem word_le_nat_alt unat_plus_simple)
  from g have plohi: "unat (position b) \<le> unat (position b + len)"
    and data: "data = take (unat (position b + len) - unat (position b))
                        (drop (unat (position b)) (raw b @ spare b))"
    and inb: "unat (position b + len) \<le> length (raw b) + length (spare b)"
    by (auto simp: slice_get_def split: if_splits)
  have psum: "unat (position b + len) = unat (position b) + unat len"
    using plohi by (metis no_olen_add_nat unat_add_lem word_le_nat_alt unat_plus_simple)
  have ldata: "length data = unat len" using data psum inb by simp
  have b2': "bytes2 = store bytes1 (unat offset) data" using b2 osum ldata by simp
  have l1: "unat offset + unat len \<le> length (raw bytes1)"
    using checkCapacity_Return[OF wf cap c] osum by simp
  have fit: "unat offset + length data \<le> length (raw bytes1)" using l1 ldata by simp
  have content: "take (unat len) (drop (unat offset) (raw bytes2)) = data"
    using store_raw_slice(1)[OF fit] b2' ldata by simp
  have raw': "raw bytes' = raw bytes2" "position bytes' = position bytes2"
    using d' by (simp_all add: movePointer_len)
  have len': "lengthB bytes' =
           (if lengthB bytes < offset + len \<and>
               lengthB bytes < position bytes + (offset + len - lengthB bytes)
            then position bytes + (offset + len - lengthB bytes) else lengthB bytes)"
    using d' cc(4,5) by (simp add: movePointer_len)
  have "unat offset + unat len \<le> length (raw bytes')" using cc(3) osum raw' by simp
  moreover have "take (unat len) (drop (unat offset) (raw bytes')) =
           take (unat len) (drop (unat (position b)) (raw b @ spare b))"
    using content data psum raw' by simp
  moreover have "position bytes' = position bytes" using raw' cc(4) by simp
  moreover have "b' = b\<lparr>position := position b + len\<rparr>" using b' by (simp add: movePointer_pos)
  ultimately show ?thesis using len' by blast
qed

lemma ReadBytes_copy_length_at_end:
  assumes "wf_slice bytes" "cap_ok bytes"
    and "ReadBytes_copy b bytes offset len = Some (Return (None, b', bytes'))"
    and "position bytes = lengthB bytes" "lengthB bytes < offset + len"
  shows "lengthB bytes' = offset + len"
  using ReadBytes_copy_effect[OF assms(1-3)] assms(4,5) by simp

text \<open>
  C5 on the code: a destination with length 3 and position 0 receives 5 bytes at offset
  0; the bytes are copied and the source position moves on by 5, but the length of the
  destination stays 3, since \<open>movePointer\<close> adds the difference \<open>offset + n - length\<close> to the
  position of the destination, not to its length.
\<close>

theorem C5_ReadBytes_destination_length:
  "ReadBytes \<lparr>raw = [1, 2, 3, 4, 5, 0, 0, 0], spare = [], endian = Some BigEndian, position = 0, lengthB = 5\<rparr>
       \<lparr>raw = [9, 9, 9, 0], spare = [], endian = Some BigEndian, position = 0, lengthB = 3\<rparr> 0 5 =
     Some (Return (None,
       \<lparr>raw = [1, 2, 3, 4, 5, 0, 0, 0], spare = [], endian = Some BigEndian, position = 5, lengthB = 5\<rparr>,
       \<lparr>raw = [1, 2, 3, 4, 5, 0, 0, 0], spare = [], endian = Some BigEndian, position = 0, lengthB = 3\<rparr>))"
  by code_simp

text \<open>No call of \<open>WriteBytes\<close> changes the length.\<close>

lemma WriteBytes_length_unchanged:
  assumes "wf_slice b" "cap_ok b" "WriteBytes b bytes offset len = Some (Return b')"
  shows "lengthB b' = lengthB b"
proof -
  from assms(3) obtain w b1 src b2 where
    c: "checkCapacity b (position b + w) = Some (Return b1)" and
    s: "copy_range b1 (position b1) (position b1 + w) src = Return b2" and
    m: "b' = movePointer b2 w pointerPosition"
    unfolding WriteBytes_def Let_def by (fastforce dest!: bind_res_Return bind_panic_Return)
  from checkCapacity_then_copy[OF assms(1,2) c copy_range_shape[OF s]] m show ?thesis
    by (simp add: movePointer_pos)
qed

text \<open>
  C6 on the code, in both implementations: \<open>WriteBytes\<close> of a two-byte source into an
  empty buffer copies the bytes and moves the position to 2, and leaves the length at 0.
\<close>

theorem C6_WriteBytes_length_not_extended:
  "WriteBytes \<lparr>raw = [], spare = [], endian = Some BigEndian, position = 0, lengthB = 0\<rparr>
       \<lparr>raw = [1, 2], spare = [], endian = Some BigEndian, position = 2, lengthB = 2\<rparr> 0 0 =
     Some (Return \<lparr>raw = [1, 2], spare = [], endian = Some BigEndian, position = 2, lengthB = 0\<rparr>) \<and>
   writeBytes_part000 \<lparr>raw = [], spare = [], endian = Some BigEndian, position = 0, lengthB = 0\<rparr>
       \<lparr>raw = [1, 2], spare = [], endian = Some BigEndian, position = 2, lengthB = 2\<rparr> 0 0 =
     Some (Return \<lparr>raw = [1, 2], spare = [], endian = Some BigEndian, position = 2, lengthB = 0\<rparr>)"
  by code_simp

text \<open>
  On a buffer with \<open>position \<le> length \<le> capacity\<close> a read whose availability check
  passes stays within the backing store, and no fixed-width read panics (the byte order
  being set, as it is in every buffer that \<open>NewByteArray\<close> returns).
\<close>

lemma read_in_bounds:
  assumes "cap_ok b" "pos_ok b" "checkLength b w = None"
  shows "unat (position b) + unat w \<le> length (raw b)"
proof (cases "position b < lengthB b")
  case True
  with assms(3) have "w \<le> lengthB b - position b"
    by (simp add: checkLength_def BytesAvailable_def not_less split: if_splits)
  moreover have "unat (lengthB b - position b) = unat (lengthB b) - unat (position b)"
    using True by (intro unat_sub) simp
  ultimately have "unat w \<le> unat (lengthB b) - unat (position b)"
    by (simp add: word_le_nat_alt)
  moreover have "unat (position b) < unat (lengthB b)" using True by (simp add: word_less_nat_alt)
  ultimately show ?thesis using assms(1) by (simp add: cap_ok_def)
next
  case False
  with assms(3) have "w = 0"
    by (simp add: checkLength_def BytesAvailable_def not_less split: if_splits)
  moreover have "unat (position b) \<le> unat (lengthB b)"
    using assms(2) by (simp add: pos_ok_def word_le_nat_alt)
  ultimately show ?thesis using assms(1) by (simp add: cap_ok_def)
qed

lemma get_uint_in_bounds:
  assumes "cap_ok b" "pos_ok b" "endian b = Some e" "checkLength b w = None" "unat w = n"
  shows "get_uint b (position b) n \<noteq> (Panic :: 'a::len word res)"
  using read_in_bounds[OF assms(1,2,4)] assms(3,5) by (simp add: get_uint_def)

lemma reads_do_not_panic:
  assumes "cap_ok b" "pos_ok b" "endian b = Some e"
  shows "ReadBoolean b \<noteq> Panic" "ReadByte b \<noteq> Panic" "ReadUnsignedByte b \<noteq> Panic"
    "ReadShort b \<noteq> Panic" "ReadUnsignedShort b \<noteq> Panic" "ReadInt b \<noteq> Panic"
    "ReadUnsignedInt b \<noteq> Panic" "ReadFloat b \<noteq> Panic" "ReadDouble b \<noteq> Panic"
proof -
  have one: "index_get b (position b) \<noteq> Panic" if "checkLength b byteWide1 = None"
    using read_in_bounds[OF assms(1,2) that] by (simp add: index_get_def byteWide1_def)
  note many = get_uint_in_bounds[OF assms]
  show "ReadBoolean b \<noteq> Panic" using one
    by (auto simp: ReadBoolean_def bind_panic_def split: option.splits res.splits)
  show "ReadByte b \<noteq> Panic" using one
    by (auto simp: ReadByte_def bind_panic_def split: option.splits res.splits)
  show "ReadUnsignedByte b \<noteq> Panic" using one
    by (auto simp: ReadUnsignedByte_def bind_panic_def split: option.splits res.splits)
  show "ReadShort b \<noteq> Panic" using many[of byteWide2 2, where 'a=16]
    by (auto simp: ReadShort_def bind_panic_def byteWide2_def split: option.splits res.splits)
  show "ReadUnsignedShort b \<noteq> Panic" using many[of byteWide2 2, where 'a=16]
    by (auto simp: ReadUnsignedShort_def bind_panic_def byteWide2_def split: option.splits res.splits)
  show "ReadInt b \<noteq> Panic" using many[of byteWide4 4, where 'a=32]
    by (auto simp: ReadInt_def bind_panic_def byteWide4_def split: option.splits res.splits)
  show "ReadUnsignedInt b \<noteq> Panic" using many[of byteWide4 4, where 'a=32]
    by (auto simp: ReadUnsignedInt_def bind_panic_def byteWide4_def split: option.splits res.splits)
  show "ReadFloat b \<noteq> Panic" using many[of byteWide4 4, where 'a=32]
    by (auto simp: ReadFloat_def bind_panic_def byteWide4_def split: option.splits res.splits)
  show "ReadDouble b \<noteq> Panic" using many[of byteWide8 8, where 'a=64]
    by (auto simp: ReadDouble_def bind_panic_def byteWide8_def split: option.splits res.splits)
qed

text \<open>
  C9 on the code: after \<open>SetPosition(5)\<close> on an empty buffer and a \<open>ReadBytes\<close> of one
  byte into it, the buffer has capacity 1, position 5 and length 6. The availability
  check for one byte passes there, and each of the one-byte reads and \<open>ReadUTFBytes(1)\<close>
  indexes the backing store at 5, out of bounds.
\<close>

theorem C9_read_out_of_bounds:
  "SetPosition \<lparr>raw = [], spare = [], endian = Some BigEndian, position = 0, lengthB = 0\<rparr> 5 =
     \<lparr>raw = [], spare = [], endian = Some BigEndian, position = 5, lengthB = 0\<rparr> \<and>
   ReadBytes \<lparr>raw = [7], spare = [], endian = Some BigEndian, position = 0, lengthB = 1\<rparr>
       \<lparr>raw = [], spare = [], endian = Some BigEndian, position = 5, lengthB = 0\<rparr> 0 1 =
     Some (Return (None,
       \<lparr>raw = [7], spare = [], endian = Some BigEndian, position = 1, lengthB = 1\<rparr>,
       \<lparr>raw = [7], spare = [], endian = Some BigEndian, position = 5, lengthB = 6\<rparr>)) \<and>
   checkLength \<lparr>raw = [7], spare = [], endian = Some BigEndian, position = 5, lengthB = 6\<rparr> byteWide1 = None \<and>
   ReadByte \<lparr>raw = [7], spare = [], endian = Some BigEndian, position = 5, lengthB = 6\<rparr> = Panic \<and>
   ReadBoolean \<lparr>raw = [7], spare = [], endian = Some BigEndian, position = 5, lengthB = 6\<rparr> = Panic \<and>
   ReadUnsignedByte \<lparr>raw = [7], spare = [], endian = Some BigEndian, position = 5, lengthB = 6\<rparr> = Panic \<and>
   ReadUTFBytes \<lparr>raw = [7], spare = [], endian = Some BigEndian, position = 5, lengthB = 6\<rparr> 1 = Panic"
  by code_simp

end
